theory Spec2Isabelle
  imports Main "HOL-Library.Sublist"
begin

section \<open>Strings as Go has them\<close>

text \<open>
  A Go string is a sequence of bytes; \<^typ>\<open>string\<close> (a list of 8-bit characters) is
  that sequence.  The functions of this section are the ones the package takes from
  \<^verbatim>\<open>strings\<close>, \<^verbatim>\<open>strconv\<close>, \<^verbatim>\<open>unicode/utf8\<close> and \<^verbatim>\<open>fmt\<close>, written over bytes.
\<close>

definition ESC :: char where
  "ESC = CHR 0x1B"

definition BSL :: char where
  "BSL = CHR 0x5C"

definition NL :: char where
  "NL = CHR 0x0A"

definition byte :: "char \<Rightarrow> nat" where
  "byte c = of_char c"

subsection \<open>strings.TrimSpace\<close>

text \<open>
  \<^verbatim>\<open>strings.TrimSpace\<close> removes the leading and then the trailing white space, where
  white space is what \<^verbatim>\<open>unicode.IsSpace\<close> accepts: tab, line feed, vertical tab, form
  feed, carriage return, space, U+0085, U+00A0, U+1680, U+2000 to U+200A, U+2028, U+2029,
  U+202F, U+205F and U+3000.  \<open>spaceRunes\<close> lists their UTF-8 encodings.  A lead byte is
  never a continuation byte, so a rune of the list starts (ends) the string exactly when
  its encoding is a prefix (suffix) of the bytes.
\<close>

definition spaceRunes :: "string list" where
  "spaceRunes =
    [[CHR 0x09], [CHR 0x0A], [CHR 0x0B], [CHR 0x0C], [CHR 0x0D], [CHR 0x20],
     [CHR 0xC2, CHR 0x85], [CHR 0xC2, CHR 0xA0],
     [CHR 0xE1, CHR 0x9A, CHR 0x80],
     [CHR 0xE2, CHR 0x80, CHR 0x80], [CHR 0xE2, CHR 0x80, CHR 0x81],
     [CHR 0xE2, CHR 0x80, CHR 0x82], [CHR 0xE2, CHR 0x80, CHR 0x83],
     [CHR 0xE2, CHR 0x80, CHR 0x84], [CHR 0xE2, CHR 0x80, CHR 0x85],
     [CHR 0xE2, CHR 0x80, CHR 0x86], [CHR 0xE2, CHR 0x80, CHR 0x87],
     [CHR 0xE2, CHR 0x80, CHR 0x88], [CHR 0xE2, CHR 0x80, CHR 0x89],
     [CHR 0xE2, CHR 0x80, CHR 0x8A],
     [CHR 0xE2, CHR 0x80, CHR 0xA8], [CHR 0xE2, CHR 0x80, CHR 0xA9],
     [CHR 0xE2, CHR 0x80, CHR 0xAF], [CHR 0xE2, CHR 0x81, CHR 0x9F],
     [CHR 0xE3, CHR 0x80, CHR 0x80]]"

definition leadingSpace :: "string \<Rightarrow> nat" where
  "leadingSpace s =
     (case find (\<lambda>p. prefix p s) spaceRunes of None \<Rightarrow> 0 | Some p \<Rightarrow> length p)"

definition trailingSpace :: "string \<Rightarrow> nat" where
  "trailingSpace s =
     (case find (\<lambda>p. suffix p s) spaceRunes of None \<Rightarrow> 0 | Some p \<Rightarrow> length p)"

function TrimLeft :: "string \<Rightarrow> string" where
  "TrimLeft s = (if leadingSpace s = 0 then s else TrimLeft (drop (leadingSpace s) s))"
  by pat_completeness auto
termination
proof (relation "measure length")
  show "wf (measure length)" by simp
next
  fix s :: string
  assume a: "leadingSpace s \<noteq> 0"
  then obtain p where p: "find (\<lambda>p. prefix p s) spaceRunes = Some p" "p \<noteq> []"
    by (auto simp: leadingSpace_def split: option.splits)
  then have "prefix p s"
    by (auto simp: find_Some_iff)
  with p have "s \<noteq> []" by auto
  with a show "(drop (leadingSpace s) s, s) \<in> measure length" by simp
qed

function TrimRight :: "string \<Rightarrow> string" where
  "TrimRight s =
     (if trailingSpace s = 0 then s else TrimRight (take (length s - trailingSpace s) s))"
  by pat_completeness auto
termination
proof (relation "measure length")
  show "wf (measure length)" by simp
next
  fix s :: string
  assume a: "trailingSpace s \<noteq> 0"
  then obtain p where p: "find (\<lambda>p. suffix p s) spaceRunes = Some p" "p \<noteq> []"
    by (auto simp: trailingSpace_def split: option.splits)
  then have "suffix p s"
    by (auto simp: find_Some_iff)
  with p have "s \<noteq> []" by auto
  with a show "(take (length s - trailingSpace s) s, s) \<in> measure length" by simp
qed

declare TrimLeft.simps [simp del] TrimRight.simps [simp del]

definition TrimSpace :: "string \<Rightarrow> string" where
  "TrimSpace s = TrimRight (TrimLeft s)"

subsection \<open>strings.ToLower and strings.ToUpper\<close>

text \<open>
  The package compares the result of \<^verbatim>\<open>strings.ToLower\<close> and \<^verbatim>\<open>strings.ToUpper\<close>
  with ASCII constants only.  Go maps rune by rune (simple case mapping); the runes whose
  lower case is an ASCII letter are \<open>A\<close> to \<open>Z\<close>, U+0130 (to \<open>i\<close>) and U+212A (to \<open>k\<close>),
  and the runes whose upper case is an ASCII letter are \<open>a\<close> to \<open>z\<close>, U+0131 (to \<open>I\<close>) and
  U+017F (to \<open>S\<close>).  Every other rune beyond ASCII, and every byte that is not valid
  UTF-8, is mapped to a rune beyond ASCII; the model leaves those bytes as they are, which
  gives the same answer to every comparison with an ASCII constant.
\<close>

definition lowerByte :: "char \<Rightarrow> char" where
  "lowerByte c = (if 65 \<le> byte c \<and> byte c \<le> 90 then char_of (byte c + 32) else c)"

definition upperByte :: "char \<Rightarrow> char" where
  "upperByte c = (if 97 \<le> byte c \<and> byte c \<le> 122 then char_of (byte c - 32) else c)"

fun ToLower :: "string \<Rightarrow> string" where
  "ToLower [] = []"
| "ToLower [a] = [lowerByte a]"
| "ToLower [a, b] =
     (if a = CHR 0xC4 \<and> b = CHR 0xB0 then ''i'' else lowerByte a # ToLower [b])"
| "ToLower (a # b # c # s) =
     (if a = CHR 0xC4 \<and> b = CHR 0xB0 then CHR ''i'' # ToLower (c # s)
      else if a = CHR 0xE2 \<and> b = CHR 0x84 \<and> c = CHR 0xAA then CHR ''k'' # ToLower s
      else lowerByte a # ToLower (b # c # s))"

fun ToUpper :: "string \<Rightarrow> string" where
  "ToUpper [] = []"
| "ToUpper [a] = [upperByte a]"
| "ToUpper (a # b # s) =
     (if a = CHR 0xC4 \<and> b = CHR 0xB1 then CHR ''I'' # ToUpper s
      else if a = CHR 0xC5 \<and> b = CHR 0xBF then CHR ''S'' # ToUpper s
      else upperByte a # ToUpper (b # s))"

subsection \<open>strings.Contains and strings.ReplaceAll\<close>

fun Contains :: "string \<Rightarrow> string \<Rightarrow> bool" where
  "Contains [] sub = (sub = [])"
| "Contains (x # xs) sub = (prefix sub (x # xs) \<or> Contains xs sub)"

text \<open>
  \<^verbatim>\<open>strings.ReplaceAll(s, old, new)\<close> replaces the occurrences of \<open>old\<close> from left to
  right, without overlap.  The package calls it with a four-byte \<open>old\<close>; for an empty
  \<open>old\<close> Go inserts \<open>new\<close> at every rune boundary, which the model gives for
  single-byte runes.
\<close>

function ReplaceAll :: "string \<Rightarrow> string \<Rightarrow> string \<Rightarrow> string" where
  "ReplaceAll s old new =
     (if old = [] then new @ concat (map (\<lambda>c. c # new) s)
      else case s of
        [] \<Rightarrow> []
      | x # xs \<Rightarrow>
          if prefix old s then new @ ReplaceAll (drop (length old) s) old new
          else x # ReplaceAll xs old new)"
  by pat_completeness auto
termination
  by (relation "measure (\<lambda>(s, old, new). length s)") auto

declare ReplaceAll.simps [simp del]

subsection \<open>strconv.Atoi\<close>

text \<open>
  \<^verbatim>\<open>strconv.Atoi\<close> accepts an optional sign followed by one or more decimal digits,
  and fails with a range error outside Go's \<^verbatim>\<open>int\<close>, taken as 64 bits wide.
  \<open>None\<close> is a non-nil \<^verbatim>\<open>err\<close>.
\<close>

definition isDigit :: "char \<Rightarrow> bool" where
  "isDigit c \<longleftrightarrow> 48 \<le> byte c \<and> byte c \<le> 57"

definition decimal :: "string \<Rightarrow> nat" where
  "decimal ds = foldl (\<lambda>n c. 10 * n + (byte c - 48)) 0 ds"

definition Atoi :: "string \<Rightarrow> int option" where
  "Atoi s =
     (let neg = (s \<noteq> [] \<and> hd s = CHR ''-'');
          ds = (if s \<noteq> [] \<and> (hd s = CHR ''-'' \<or> hd s = CHR ''+'') then tl s else s)
      in if ds = [] \<or> \<not> list_all isDigit ds then None
         else let v = (if neg then - int (decimal ds) else int (decimal ds))
              in if v < - (2 ^ 63) \<or> 2 ^ 63 - 1 < v then None else Some v)"

section \<open>The color resolver\<close>

definition ansi :: "string \<Rightarrow> string" where
  "ansi code = ESC # CHR ''['' # code @ ''m''"

definition escText :: string where
  "escText = BSL # ''033''"

definition parseColor :: "string \<Rightarrow> string" where
  "parseColor c0 =
     (let c = TrimSpace c0 in
      if c = [] then []
      else let l = ToLower c in
        if l = ''red'' then ansi ''31''
        else if l = ''green'' then ansi ''32''
        else if l = ''yellow'' then ansi ''33''
        else if l = ''blue'' then ansi ''34''
        else if l = ''magenta'' then ansi ''35''
        else if l = ''cyan'' then ansi ''36''
        else if l = ''white'' then ansi ''37''
        else if l = ''gray'' \<or> l = ''grey'' then ansi ''90''
        else if l = ''none'' \<or> l = ''off'' then []
        else if Contains c [ESC] \<or> Contains c escText then ReplaceAll c escText [ESC]
        else if Atoi c \<noteq> None then ansi c
        else c)"


section \<open>Formatting: utf8.RuneCountInString, fmt verbs, Time.Format\<close>

text \<open>
  \<open>runeWidth s\<close> is the number of bytes \<^verbatim>\<open>utf8.DecodeRuneInString\<close> consumes at the
  head of \<open>s\<close>: the length of a well-formed encoding, and 1 for a byte that starts none.
\<close>

definition cont :: "char \<Rightarrow> bool" where
  "cont c \<longleftrightarrow> 0x80 \<le> byte c \<and> byte c \<le> 0xBF"

definition second_ok :: "nat \<Rightarrow> char \<Rightarrow> bool" where
  "second_ok b c \<longleftrightarrow>
     (if b = 0xE0 then 0xA0 \<le> byte c \<and> byte c \<le> 0xBF
      else if b = 0xED then 0x80 \<le> byte c \<and> byte c \<le> 0x9F
      else if b = 0xF0 then 0x90 \<le> byte c \<and> byte c \<le> 0xBF
      else if b = 0xF4 then 0x80 \<le> byte c \<and> byte c \<le> 0x8F
      else cont c)"

definition runeWidth :: "string \<Rightarrow> nat" where
  "runeWidth s =
     (case s of
        [] \<Rightarrow> 0
      | c # cs \<Rightarrow>
          let b = byte c in
          if b < 0xC2 \<or> 0xF5 \<le> b then 1
          else if b < 0xE0 then
            (case cs of c1 # _ \<Rightarrow> if second_ok b c1 then 2 else 1 | _ \<Rightarrow> 1)
          else if b < 0xF0 then
            (case cs of c1 # c2 # _ \<Rightarrow> if second_ok b c1 \<and> cont c2 then 3 else 1 | _ \<Rightarrow> 1)
          else
            (case cs of
               c1 # c2 # c3 # _ \<Rightarrow> if second_ok b c1 \<and> cont c2 \<and> cont c3 then 4 else 1
             | _ \<Rightarrow> 1))"

function RuneCountInString :: "string \<Rightarrow> nat" where
  "RuneCountInString s =
     (if s = [] then 0 else Suc (RuneCountInString (drop (runeWidth s) s)))"
  by pat_completeness auto
termination
proof (relation "measure length")
  show "wf (measure length)" by simp
next
  fix s :: string
  assume "s \<noteq> []"
  moreover from this have "0 < runeWidth s"
    by (auto simp: runeWidth_def Let_def split: list.splits)
  ultimately show "(drop (runeWidth s) s, s) \<in> measure length" by simp
qed

declare RuneCountInString.simps [simp del]

text \<open>
  \<open>padRight n s\<close> is \<^verbatim>\<open>fmt.Sprintf("%-Ns", s)\<close> for a width \<open>n\<close> written in the format:
  \<^verbatim>\<open>fmt\<close> pads with spaces on the right up to \<open>n\<close> runes.  \<open>padRightStar n s\<close> is
  \<^verbatim>\<open>fmt.Sprintf("%-*s", n, s)\<close>, the width taken from an argument: \<^verbatim>\<open>fmt\<close> refuses an
  argument width above \<open>10\<^sup>6\<close> (\<^verbatim>\<open>tooLarge\<close> in \<^verbatim>\<open>fmt/print.go\<close>), writes
  \<^verbatim>\<open>%!(BADWIDTH)\<close> and then formats the operand without a width.
\<close>

definition padRight :: "nat \<Rightarrow> string \<Rightarrow> string" where
  "padRight n s = s @ replicate (n - RuneCountInString s) CHR '' ''"

definition padRightStar :: "nat \<Rightarrow> string \<Rightarrow> string" where
  "padRightStar n s = (if 1000000 < n then ''%!(BADWIDTH)'' @ s else padRight n s)"

fun digits :: "nat \<Rightarrow> string" where
  "digits n =
     (if n < 10 then [char_of (48 + n)] else digits (n div 10) @ [char_of (48 + n mod 10)])"

declare digits.simps [simp del]

definition itoa :: "int \<Rightarrow> string" where
  "itoa i = (if i < 0 then CHR ''-'' # digits (nat (- i)) else digits (nat i))"

definition zpad :: "nat \<Rightarrow> nat \<Rightarrow> string" where
  "zpad k n = replicate (k - length (digits n)) CHR ''0'' @ digits n"

text \<open>
  The fields of a \<^verbatim>\<open>time.Time\<close> that the layout \<^verbatim>\<open>2006/01/02 15:04:05\<close> prints.
\<close>

record gotime =
  year :: nat
  month :: nat
  day :: nat
  hour :: nat
  minute :: nat
  second :: nat

definition Format :: "gotime \<Rightarrow> string" where
  "Format t =
     zpad 4 (year t) @ ''/'' @ zpad 2 (month t) @ ''/'' @ zpad 2 (day t) @ '' '' @
     zpad 2 (hour t) @ '':'' @ zpad 2 (minute t) @ '':'' @ zpad 2 (second t)"

section \<open>Records and attributes\<close>

text \<open>
  The Go values passed as \<^verbatim>\<open>args ...any\<close>, held by a \<^verbatim>\<open>slog.Value\<close> and
  given to \<^verbatim>\<open>recover()\<close>: nil, strings, integers, booleans and \<^verbatim>\<open>slog.Attr\<close>.
  \<open>fmtv\<close> is the verb \<^verbatim>\<open>%v\<close> on them (an \<^verbatim>\<open>Attr\<close> prints through its
  \<^verbatim>\<open>String\<close> method).
\<close>

datatype any = ANil | AString string | AInt int | ABool bool | AAttr string any

type_synonym attr = "string \<times> any"

fun fmtv :: "any \<Rightarrow> string" where
  "fmtv ANil = ''<nil>''"
| "fmtv (AString s) = s"
| "fmtv (AInt i) = itoa i"
| "fmtv (ABool b) = (if b then ''true'' else ''false'')"
| "fmtv (AAttr k v) = k @ ''='' @ fmtv v"

record logrecord =
  Time :: gotime
  Level :: int
  Message :: string
  PC :: nat
  Attrs :: "attr list"

definition NewRecord :: "gotime \<Rightarrow> int \<Rightarrow> string \<Rightarrow> nat \<Rightarrow> logrecord" where
  "NewRecord t l msg pc = \<lparr>Time = t, Level = l, Message = msg, PC = pc, Attrs = []\<rparr>"

definition badKey :: string where
  "badKey = ''!BADKEY''"

text \<open>The loop of \<^verbatim>\<open>Record.Add\<close> over \<^verbatim>\<open>argsToAttr\<close>.\<close>

fun argsToAttrs :: "any list \<Rightarrow> attr list" where
  "argsToAttrs [] = []"
| "argsToAttrs [AString k] = [(badKey, AString k)]"
| "argsToAttrs (AString k # v # rest) = (k, v) # argsToAttrs rest"
| "argsToAttrs (AAttr k v # rest) = (k, v) # argsToAttrs rest"
| "argsToAttrs (x # rest) = (badKey, x) # argsToAttrs rest"

definition Add :: "logrecord \<Rightarrow> any list \<Rightarrow> logrecord" where
  "Add r args = r\<lparr>Attrs := Attrs r @ argsToAttrs args\<rparr>"

definition LevelTrace :: int where "LevelTrace = - 8"
definition LevelDebug :: int where "LevelDebug = - 4"
definition LevelInfo :: int where "LevelInfo = 0"
definition LevelWarn :: int where "LevelWarn = 4"
definition LevelError :: int where "LevelError = 8"
definition LevelFatal :: int where "LevelFatal = 12"
definition LevelPanic :: int where "LevelPanic = 16"

section \<open>The process state\<close>

text \<open>
  A \<^verbatim>\<open>[]slog.Attr\<close> is a slice header: the address of a backing array, a length and
  a capacity.  The nil slice has capacity 0 and its address is never read.
\<close>

record slice =
  s_arr :: nat
  s_len :: nat
  s_cap :: nat

definition nilSlice :: slice where
  "nilSlice = \<lparr>s_arr = 0, s_len = 0, s_cap = 0\<rparr>"

text \<open>
  An \<^verbatim>\<open>io.Writer\<close>: \<open>calls\<close> are the byte strings given to \<^verbatim>\<open>Write\<close> so far, in
  order, and \<open>reply\<close> gives, from them and the bytes of the next call, the error that call
  returns (\<open>None\<close> is nil).
\<close>

record sink =
  calls :: "string list"
  reply :: "string list \<Rightarrow> string \<Rightarrow> string option"

text \<open>
  A \<^verbatim>\<open>ColoredHandler\<close>: the address of its level variable, the number of its writer
  among \<open>writers\<close> below, its attribute slice and its groups.  No function of the package
  changes a handler once it is made, and none reads the groups.
\<close>

record handler =
  h_level :: nat
  h_writer :: nat
  h_attrs :: slice
  h_groups :: "string list"

text \<open>
  The state of the process that the package reads and writes.  \<open>env\<close> is
  \<^verbatim>\<open>os.Getenv\<close>, \<open>frames\<close> the file and line that \<^verbatim>\<open>runtime.CallersFrames\<close> gives
  for a program counter, \<open>growcap\<close> the capacity the runtime chooses when \<^verbatim>\<open>append\<close>
  has to allocate (from the old capacity and the length needed).  \<open>levelVars\<close> holds the
  \<^verbatim>\<open>slog.LevelVar\<close>s and \<open>arrays\<close> the backing arrays of attribute slices, by address;
  \<open>writers\<close> holds the \<^verbatim>\<open>io.Writer\<close>s, \<open>stdout\<close> being \<^verbatim>\<open>os.Stdout\<close>.  The
  remaining fields are the package variables of both files.  \<open>sourceWidth\<close> is a Go
  \<^verbatim>\<open>int\<close> that is only ever assigned a positive value.
\<close>

record world =
  env :: "string \<Rightarrow> string"
  frames :: "nat \<Rightarrow> string \<times> int"
  growcap :: "nat \<Rightarrow> nat \<Rightarrow> nat"
  writers :: "nat \<Rightarrow> sink"
  levelVars :: "nat \<Rightarrow> int"
  nextLevelVar :: nat
  arrays :: "nat \<Rightarrow> attr list"
  nextArray :: nat
  slogDefault :: "handler option"
  logger :: "handler option"
  level :: "nat option"
  initOnce :: bool
  isInit :: bool
  sourceWidth :: nat
  colorTrace :: string
  colorDebug :: string
  colorInfo :: string
  colorWarn :: string
  colorError :: string
  colorSource :: string
  colorsDisabled :: bool
  configLoaded :: bool

definition stdout :: nat where
  "stdout = 1"

definition colorReset :: string where
  "colorReset = ESC # ''[0m''"

definition Write :: "nat \<Rightarrow> string \<Rightarrow> world \<Rightarrow> string option \<times> world" where
  "Write fd p w =
     (let k = writers w fd
      in (reply k (calls k) p, w\<lparr>writers := (writers w)(fd := k\<lparr>calls := calls k @ [p]\<rparr>)\<rparr>))"


section \<open>Configuration\<close>

definition getenv_color :: "string \<Rightarrow> string \<Rightarrow> world \<Rightarrow> string" where
  "getenv_color name old w = (if env w name \<noteq> [] then parseColor (env w name) else old)"

definition initConfig :: "world \<Rightarrow> world" where
  "initConfig w =
     (if configLoaded w then w
      else
        let w1 = w\<lparr>configLoaded := True\<rparr>;
            ws = env w ''LOG_SOURCE_WIDTH'';
            w2 = (if ws \<noteq> [] then
                    (case Atoi ws of
                       Some width \<Rightarrow> if 0 < width then w1\<lparr>sourceWidth := nat width\<rparr> else w1
                     | None \<Rightarrow> w1)
                  else w1);
            w3 = (if env w ''LOG_NO_COLOR'' = ''1'' \<or> env w ''LOG_NO_COLOR'' = ''true''
                  then w2\<lparr>colorsDisabled := True\<rparr> else w2)
        in w3\<lparr>colorTrace := getenv_color ''LOG_COLOR_TRACE'' (colorTrace w3) w,
               colorDebug := getenv_color ''LOG_COLOR_DEBUG'' (colorDebug w3) w,
               colorInfo := getenv_color ''LOG_COLOR_INFO'' (colorInfo w3) w,
               colorWarn := getenv_color ''LOG_COLOR_WARN'' (colorWarn w3) w,
               colorError := getenv_color ''LOG_COLOR_ERROR'' (colorError w3) w,
               colorSource := getenv_color ''LOG_COLOR_SOURCE'' (colorSource w3) w\<rparr>)"

definition SetSourceWidth :: "int \<Rightarrow> world \<Rightarrow> world" where
  "SetSourceWidth width w = (if 0 < width then w\<lparr>sourceWidth := nat width\<rparr> else w)"

definition SetColorTrace :: "string \<Rightarrow> world \<Rightarrow> world" where
  "SetColorTrace color w = w\<lparr>colorTrace := parseColor color\<rparr>"

definition SetColorDebug :: "string \<Rightarrow> world \<Rightarrow> world" where
  "SetColorDebug color w = w\<lparr>colorDebug := parseColor color\<rparr>"

definition SetColorInfo :: "string \<Rightarrow> world \<Rightarrow> world" where
  "SetColorInfo color w = w\<lparr>colorInfo := parseColor color\<rparr>"

definition SetColorWarn :: "string \<Rightarrow> world \<Rightarrow> world" where
  "SetColorWarn color w = w\<lparr>colorWarn := parseColor color\<rparr>"

definition SetColorError :: "string \<Rightarrow> world \<Rightarrow> world" where
  "SetColorError color w = w\<lparr>colorError := parseColor color\<rparr>"

definition SetColorSource :: "string \<Rightarrow> world \<Rightarrow> world" where
  "SetColorSource color w = w\<lparr>colorSource := parseColor color\<rparr>"

definition DisableColors :: "world \<Rightarrow> world" where
  "DisableColors w = w\<lparr>colorsDisabled := True\<rparr>"

definition EnableColors :: "world \<Rightarrow> world" where
  "EnableColors w = w\<lparr>colorsDisabled := False\<rparr>"

section \<open>The handler\<close>

definition NewColoredHandler :: "nat \<Rightarrow> nat \<Rightarrow> world \<Rightarrow> handler \<times> world" where
  "NewColoredHandler fd lv w =
     (\<lparr>h_level = lv, h_writer = fd, h_attrs = nilSlice, h_groups = []\<rparr>, initConfig w)"

definition Enabled :: "handler \<Rightarrow> int \<Rightarrow> world \<Rightarrow> bool" where
  "Enabled h l w \<longleftrightarrow> levelVars w (h_level h) \<le> l"

definition formatLevelWithColor :: "int \<Rightarrow> world \<Rightarrow> string \<times> string" where
  "formatLevelWithColor l w =
     (let (name, color) =
            (if l \<le> LevelTrace then (''TRACE'', colorTrace w)
             else if l \<le> LevelDebug then (''DEBUG'', colorDebug w)
             else if l \<le> LevelInfo then (''INFO'', colorInfo w)
             else if l \<le> LevelWarn then (''WARN'', colorWarn w)
             else if l \<le> LevelError then (''ERROR'', colorError w)
             else if l \<le> LevelFatal then (''FATAL'', colorError w)
             else (''PANIC'', colorError w));
          paddedName = padRight 5 name
      in if colorsDisabled w \<or> color = [] then (paddedName, [])
         else (color @ paddedName @ colorReset, color))"

text \<open>The final path segment: the bytes after the last \<open>/\<close>, or the whole path.\<close>

definition baseName :: "string \<Rightarrow> string" where
  "baseName file = rev (takeWhile (\<lambda>c. c \<noteq> CHR ''/'') (rev file))"

text \<open>
  \<open>fitSource\<close> is the step of \<^verbatim>\<open>Handle\<close> commented \<^verbatim>\<open>Pad or truncate to fixed width\<close>:
  \<^verbatim>\<open>len\<close> and the slice expression count bytes.
\<close>

definition fitSource :: "nat \<Rightarrow> string \<Rightarrow> string" where
  "fitSource width loc =
     (if width < length loc then take width loc else padRightStar width loc)"

definition sourceOf :: "logrecord \<Rightarrow> world \<Rightarrow> string" where
  "sourceOf r w =
     (if PC r \<noteq> 0 then
        (let (file, line) = frames w (PC r) in
         if file \<noteq> [] then
           (let loc = fitSource (sourceWidth w) (baseName file @ '':'' @ itoa line)
            in if \<not> colorsDisabled w \<and> colorSource w \<noteq> []
               then colorSource w @ ''['' @ loc @ '']'' @ colorReset
               else ''['' @ loc @ '']'')
         else [])
      else [])"

definition fmtAttr :: "attr \<Rightarrow> string" where
  "fmtAttr a = '' '' @ fst a @ ''='' @ fmtv (snd a)"

definition elems :: "slice \<Rightarrow> world \<Rightarrow> attr list" where
  "elems s w = take (s_len s) (arrays w (s_arr s))"

definition renderLine :: "handler \<Rightarrow> logrecord \<Rightarrow> world \<Rightarrow> string" where
  "renderLine h r w =
     (let timeStr = Format (Time r);
          (levelStr, levelColor) = formatLevelWithColor (Level r) w;
          source = sourceOf r w;
          msgContent = Message r @ concat (map fmtAttr (Attrs r))
                         @ concat (map fmtAttr (elems (h_attrs h) w));
          msgContent' = (if \<not> colorsDisabled w \<and> levelColor \<noteq> []
                         then levelColor @ msgContent @ colorReset else msgContent)
      in ''['' @ timeStr @ ''] '' @ levelStr @ '' '' @ source @ '' '' @ msgContent' @ [NL])"

definition Handle :: "handler \<Rightarrow> logrecord \<Rightarrow> world \<Rightarrow> string option \<times> world" where
  "Handle h r w = Write (h_writer h) (renderLine h r w) w"

text \<open>
  The built-in \<^verbatim>\<open>append(s, xs...)\<close>: when the capacity of \<open>s\<close> suffices, the new
  elements are written into the backing array of \<open>s\<close> behind its length; otherwise a new
  array of the capacity the runtime chooses receives the elements of \<open>s\<close> and then \<open>xs\<close>.
\<close>

definition zeroAttr :: attr where
  "zeroAttr = ([], ANil)"

definition append_attrs :: "slice \<Rightarrow> attr list \<Rightarrow> world \<Rightarrow> slice \<times> world" where
  "append_attrs s xs w =
     (let n = s_len s + length xs in
      if n \<le> s_cap s then
        (s\<lparr>s_len := n\<rparr>,
         w\<lparr>arrays := (arrays w)(s_arr s :=
              take (s_len s) (arrays w (s_arr s)) @ xs @ drop n (arrays w (s_arr s)))\<rparr>)
      else
        (let c = max n (growcap w (s_cap s) n); a = nextArray w
         in (\<lparr>s_arr = a, s_len = n, s_cap = c\<rparr>,
             w\<lparr>arrays := (arrays w)(a := elems s w @ xs @ replicate (c - n) zeroAttr),
               nextArray := Suc a\<rparr>)))"

definition WithAttrs :: "handler \<Rightarrow> attr list \<Rightarrow> world \<Rightarrow> handler \<times> world" where
  "WithAttrs h as w =
     (let (s, w') = append_attrs (h_attrs h) as w
      in (\<lparr>h_level = h_level h, h_writer = h_writer h, h_attrs = s, h_groups = h_groups h\<rparr>, w'))"

section \<open>The global logger\<close>

definition parseLevel :: "string \<Rightarrow> int" where
  "parseLevel s =
     (let u = ToUpper (TrimSpace s) in
      if u = ''TRACE'' then LevelTrace
      else if u = ''DEBUG'' then LevelDebug
      else if u = ''WARN'' \<or> u = ''WARNING'' then LevelWarn
      else if u = ''ERROR'' then LevelError
      else LevelInfo)"

text \<open>
  \<^verbatim>\<open>initOnce.Do\<close> runs its function when the \<^verbatim>\<open>sync.Once\<close> has not fired, and
  marks it fired.
\<close>

definition Init :: "world \<Rightarrow> world" where
  "Init w =
     (if initOnce w then w
      else
        let a = nextLevelVar w;
            w1 = w\<lparr>levelVars := (levelVars w)(a := 0), nextLevelVar := Suc a, level := Some a\<rparr>;
            w2 = w1\<lparr>levelVars := (levelVars w1)(a := parseLevel (env w1 ''LOG_LEVEL''))\<rparr>;
            (h, w3) = NewColoredHandler stdout a w2
        in w3\<lparr>logger := Some h, slogDefault := Some h, isInit := True, initOnce := True\<rparr>)"

definition SetLevel :: "string \<Rightarrow> world \<Rightarrow> world" where
  "SetLevel l w =
     (case level w of
        None \<Rightarrow> w
      | Some a \<Rightarrow> w\<lparr>levelVars := (levelVars w)(a := parseLevel l)\<rparr>)"

definition ensureInit :: "world \<Rightarrow> world" where
  "ensureInit w = (if \<not> isInit w then Init w else w)"

text \<open>
  The functions that use \<^verbatim>\<open>logger\<close> return \<open>None\<close> for the run-time panic of a nil
  \<^verbatim>\<open>logger\<close>, and otherwise the state they leave: they have no result of their own, and
  the blank assignment \<^verbatim>\<open>_ = logger.Handler().Handle(...)\<close> keeps only the state of what
  \<^verbatim>\<open>Handle\<close> returns.  \<open>now\<close> is \<^verbatim>\<open>time.Now()\<close> and \<open>pc\<close> the program counter that
  \<^verbatim>\<open>runtime.Callers\<close> stores in \<^verbatim>\<open>pcs[0]\<close> (0 when there is none).
\<close>

definition logWithCaller ::
    "int \<Rightarrow> string \<Rightarrow> any list \<Rightarrow> gotime \<Rightarrow> nat \<Rightarrow> world \<Rightarrow> world option" where
  "logWithCaller lvl msg args now pc w =
     (let w1 = ensureInit w in
      case logger w1 of
        None \<Rightarrow> None
      | Some h \<Rightarrow>
          if \<not> Enabled h lvl w1 then Some w1
          else let r = Add (NewRecord now lvl msg pc) args
               in Some (snd (Handle h r w1)))"

definition Trace :: "string \<Rightarrow> any list \<Rightarrow> gotime \<Rightarrow> nat \<Rightarrow> world \<Rightarrow> world option" where
  "Trace msg args = logWithCaller LevelTrace msg args"

definition Debug :: "string \<Rightarrow> any list \<Rightarrow> gotime \<Rightarrow> nat \<Rightarrow> world \<Rightarrow> world option" where
  "Debug msg args = logWithCaller LevelDebug msg args"

definition Info :: "string \<Rightarrow> any list \<Rightarrow> gotime \<Rightarrow> nat \<Rightarrow> world \<Rightarrow> world option" where
  "Info msg args = logWithCaller LevelInfo msg args"

definition Warn :: "string \<Rightarrow> any list \<Rightarrow> gotime \<Rightarrow> nat \<Rightarrow> world \<Rightarrow> world option" where
  "Warn msg args = logWithCaller LevelWarn msg args"

definition Error :: "string \<Rightarrow> any list \<Rightarrow> gotime \<Rightarrow> nat \<Rightarrow> world \<Rightarrow> world option" where
  "Error msg args = logWithCaller LevelError msg args"

text \<open>
  \<open>Recover p stack now pc\<close>: \<open>p\<close> is what the built-in \<^verbatim>\<open>recover()\<close> yields (\<open>None\<close> is
  nil) and \<open>stack\<close> the text \<^verbatim>\<open>runtime.Stack\<close> has to offer, of which the 4096-byte
  buffer keeps the head.
\<close>

definition Recover :: "any option \<Rightarrow> string \<Rightarrow> gotime \<Rightarrow> nat \<Rightarrow> world \<Rightarrow> world option" where
  "Recover p stack now pc w =
     (case p of
        None \<Rightarrow> Some w
      | Some r \<Rightarrow>
          (let w1 = ensureInit w;
               buf = take 4096 stack;
               rec = Add (NewRecord now LevelPanic (''recovered: '' @ fmtv r) pc)
                       [AString ''stack'', AString buf]
           in case logger w1 of
                None \<Rightarrow> None
              | Some h \<Rightarrow> Some (snd (Handle h rec w1))))"

section \<open>The state at process start, and states used as examples\<close>

text \<open>
  The package variables as their declarations initialise them; the environment, the
  symbol table, the allocator and the writers are those of the process.
\<close>

definition start ::
    "(string \<Rightarrow> string) \<Rightarrow> (nat \<Rightarrow> string \<times> int) \<Rightarrow> (nat \<Rightarrow> nat \<Rightarrow> nat) \<Rightarrow> (nat \<Rightarrow> sink)
      \<Rightarrow> world" where
  "start e f g ws =
     \<lparr>env = e, frames = f, growcap = g, writers = ws,
      levelVars = (\<lambda>_. 0), nextLevelVar = 0, arrays = (\<lambda>_. []), nextArray = 0,
      slogDefault = None, logger = None, level = None, initOnce = False, isInit = False,
      sourceWidth = 20, colorTrace = ansi ''90'', colorDebug = ansi ''36'', colorInfo = [],
      colorWarn = ansi ''33'', colorError = ansi ''31'', colorSource = ansi ''32'',
      colorsDisabled = False, configLoaded = False\<rparr>"

text \<open>
  The capacity \<^verbatim>\<open>runtime.growslice\<close> computes for a slice of fewer than 256 elements:
  the length needed when that exceeds twice the old capacity, and twice the old capacity
  otherwise.  For the 40-byte \<^verbatim>\<open>slog.Attr\<close> the capacities 1, 2 and 4 are allocation
  size classes (48, 80 and 160 bytes), so that rounding leaves them as they are.
\<close>

definition goGrow :: "nat \<Rightarrow> nat \<Rightarrow> nat" where
  "goGrow oldcap n = (if 2 * oldcap < n then n else 2 * oldcap)"

text \<open>
  A writer that accepts every call and one that fails every call, both before their
  first call.
\<close>

definition okSink :: sink where
  "okSink = \<lparr>calls = [], reply = (\<lambda>_ _. None)\<rparr>"

definition failingSink :: sink where
  "failingSink = \<lparr>calls = [], reply = (\<lambda>_ _. Some ''EIO'')\<rparr>"

text \<open>
  A process with an empty environment in which program counter 7 is line 42 of
  \<^verbatim>\<open>/home/u/app.go\<close>, at its start, with working and with failing writers; and a time.
\<close>

definition exFrames :: "nat \<Rightarrow> string \<times> int" where
  "exFrames pc = (if pc = 7 then (''/home/u/app.go'', 42) else ([], 0))"

definition exWorld :: world where
  "exWorld = start (\<lambda>_. []) exFrames goGrow (\<lambda>_. okSink)"

definition exFailing :: world where
  "exFailing = start (\<lambda>_. []) exFrames goGrow (\<lambda>_. failingSink)"

definition exTime :: gotime where
  "exTime = \<lparr>year = 2025, month = 12, day = 27, hour = 9, minute = 20, second = 18\<rparr>"

text \<open>The handler \<^verbatim>\<open>Init\<close> makes the global logger in these processes.\<close>

definition exLogger :: handler where
  "exLogger = \<lparr>h_level = 0, h_writer = stdout, h_attrs = nilSlice, h_groups = []\<rparr>"

text \<open>
  After \<^verbatim>\<open>Init()\<close>, \<^verbatim>\<open>SetSourceWidth(10)\<close> and \<^verbatim>\<open>DisableColors()\<close>; and the same with
  \<^verbatim>\<open>SetSourceWidth(1000001)\<close>.
\<close>

definition exPlain :: world where
  "exPlain = DisableColors (SetSourceWidth 10 (Init exWorld))"

definition exWide :: world where
  "exWide = DisableColors (SetSourceWidth 1000001 (Init exWorld))"

text \<open>
  A handler derived from a new one by \<^verbatim>\<open>WithAttrs\<close> three times, one attribute each
  time, and the state that leaves; then two handlers derived from it, one after the
  other.
\<close>

definition exParent :: "handler \<times> world" where
  "exParent =
     (let (h0, w0) = NewColoredHandler stdout 0 exWorld;
          (h1, w1) = WithAttrs h0 [(''a'', AInt 1)] w0;
          (h2, w2) = WithAttrs h1 [(''b'', AInt 2)] w1
      in WithAttrs h2 [(''c'', AInt 3)] w2)"

definition exChildD :: "handler \<times> world" where
  "exChildD = WithAttrs (fst exParent) [(''d'', AInt 4)] (snd exParent)"

definition exChildE :: "handler \<times> world" where
  "exChildE = WithAttrs (fst exParent) [(''e'', AInt 5)] (snd exChildD)"

text \<open>
  A record, and a process whose call sites lie in a file with an escape byte in its name.
\<close>

definition exRecord :: logrecord where
  "exRecord = Add (NewRecord exTime LevelWarn ''slow query'' 7) [AString ''duration'', AString ''500ms'']"

definition escFile :: string where
  "escFile = ''/home/u/a'' @ [ESC] @ ''.go''"

definition exEscape :: world where
  "exEscape = (DisableColors (Init exWorld))\<lparr>frames := (\<lambda>_. (escFile, 1))\<rparr>"

section \<open>Notions used in the statements and proofs\<close>

text \<open>The five entry points that the floor can silence, and their severities.\<close>

datatype entry = ETrace | EDebug | EInfo | EWarn | EError

fun severity :: "entry \<Rightarrow> int" where
  "severity ETrace = LevelTrace"
| "severity EDebug = LevelDebug"
| "severity EInfo = LevelInfo"
| "severity EWarn = LevelWarn"
| "severity EError = LevelError"

fun entryPoint ::
    "entry \<Rightarrow> string \<Rightarrow> any list \<Rightarrow> gotime \<Rightarrow> nat \<Rightarrow> world \<Rightarrow> world option" where
  "entryPoint ETrace = Trace"
| "entryPoint EDebug = Debug"
| "entryPoint EInfo = Info"
| "entryPoint EWarn = Warn"
| "entryPoint EError = Error"

text \<open>The floor: the value of the level variable that the global logger's handler reads.\<close>

definition floorOf :: "world \<Rightarrow> int option" where
  "floorOf w = (case logger w of None \<Rightarrow> None | Some h \<Rightarrow> Some (levelVars w (h_level h)))"

text \<open>
  What \<^verbatim>\<open>Init\<close> establishes and every function of the package keeps: the global logger
  is the handler on \<^verbatim>\<open>os.Stdout\<close> without bound attributes that reads the level variable
  \<^verbatim>\<open>level\<close> points to.
\<close>

definition initialised :: "world \<Rightarrow> bool" where
  "initialised w \<longleftrightarrow>
     isInit w \<and>
     (case level w of
        None \<Rightarrow> False
      | Some a \<Rightarrow>
          logger w = Some \<lparr>h_level = a, h_writer = stdout, h_attrs = nilSlice, h_groups = []\<rparr>)"

text \<open>A string that \<^verbatim>\<open>strings.TrimSpace\<close> leaves as it is.\<close>

definition trimmed :: "string \<Rightarrow> bool" where
  "trimmed s \<longleftrightarrow> (\<forall>p \<in> set spaceRunes. \<not> prefix p s \<and> \<not> suffix p s)"

definition unescape :: "string \<Rightarrow> string" where
  "unescape c = ReplaceAll c escText [ESC]"

text \<open>The case labels of the \<^verbatim>\<open>switch\<close> in \<^verbatim>\<open>parseColor\<close>, and the codes it returns.\<close>

definition colorNames :: "string set" where
  "colorNames = {''red'', ''green'', ''yellow'', ''blue'', ''magenta'', ''cyan'', ''white'',
     ''gray'', ''grey'', ''none'', ''off''}"

definition namedCodes :: "string set" where
  "namedCodes = {''31'', ''32'', ''33'', ''34'', ''35'', ''36'', ''37'', ''90''}"

text \<open>No escape byte in a string.\<close>

definition plain :: "string \<Rightarrow> bool" where
  "plain s \<longleftrightarrow> ESC \<notin> set s"

text \<open>
  A slice whose length is within its capacity, within an array that has been allocated.
\<close>

definition slice_ok :: "slice \<Rightarrow> world \<Rightarrow> bool" where
  "slice_ok s w \<longleftrightarrow>
     s_len s \<le> s_cap s \<and> s_cap s \<le> length (arrays w (s_arr s)) \<and>
     (0 < s_cap s \<longrightarrow> s_arr s < nextArray w)"

text \<open>A string of single-byte runes.\<close>

definition ascii :: "string \<Rightarrow> bool" where
  "ascii s \<longleftrightarrow> (\<forall>c \<in> set s. byte c < 0x80)"

section \<open>The color resolver: trimming, replacement, fixed points\<close>

lemma leadingSpace_0: "leadingSpace s = 0 \<longleftrightarrow> (\<forall>p \<in> set spaceRunes. \<not> prefix p s)"
proof -
  have ne: "\<forall>p \<in> set spaceRunes. p \<noteq> []" by (simp add: spaceRunes_def)
  show ?thesis
  proof (cases "find (\<lambda>p. prefix p s) spaceRunes")
    case None
    then have "leadingSpace s = 0" by (simp add: leadingSpace_def)
    moreover from None have "\<forall>p \<in> set spaceRunes. \<not> prefix p s"
      by (simp add: find_None_iff)
    ultimately show ?thesis by simp
  next
    case (Some p)
    then have "p \<in> set spaceRunes" "prefix p s"
      by (auto simp: find_Some_iff)
    with Some ne show ?thesis by (auto simp: leadingSpace_def)
  qed
qed

lemma trailingSpace_0: "trailingSpace s = 0 \<longleftrightarrow> (\<forall>p \<in> set spaceRunes. \<not> suffix p s)"
proof -
  have ne: "\<forall>p \<in> set spaceRunes. p \<noteq> []" by (simp add: spaceRunes_def)
  show ?thesis
  proof (cases "find (\<lambda>p. suffix p s) spaceRunes")
    case None
    then have "trailingSpace s = 0" by (simp add: trailingSpace_def)
    moreover from None have "\<forall>p \<in> set spaceRunes. \<not> suffix p s"
      by (simp add: find_None_iff)
    ultimately show ?thesis by simp
  next
    case (Some p)
    then have "p \<in> set spaceRunes" "suffix p s"
      by (auto simp: find_Some_iff)
    with Some ne show ?thesis by (auto simp: trailingSpace_def)
  qed
qed

lemma TrimLeft_leading: "leadingSpace (TrimLeft s) = 0"
  by (induction s rule: TrimLeft.induct) (subst TrimLeft.simps, simp)

lemma TrimRight_trailing: "trailingSpace (TrimRight s) = 0"
  by (induction s rule: TrimRight.induct) (subst TrimRight.simps, simp)

lemma TrimRight_prefix: "prefix (TrimRight s) s"
proof (induction s rule: TrimRight.induct)
  case (1 s)
  show ?case
  proof (cases "trailingSpace s = 0")
    case True
    then show ?thesis by (subst TrimRight.simps) simp
  next
    case False
    with 1 have "prefix (TrimRight (take (length s - trailingSpace s) s)) (take (length s - trailingSpace s) s)"
      by simp
    then have "prefix (TrimRight (take (length s - trailingSpace s) s)) s"
      using take_is_prefix prefix_order.trans by blast
    with False show ?thesis by (subst TrimRight.simps) simp
  qed
qed

lemma trimmed_TrimSpace: "trimmed (TrimSpace s)"
proof -
  have "leadingSpace (TrimLeft s) = 0" by (rule TrimLeft_leading)
  then have "\<forall>p \<in> set spaceRunes. \<not> prefix p (TrimLeft s)"
    by (simp add: leadingSpace_0)
  moreover have "prefix (TrimRight (TrimLeft s)) (TrimLeft s)" by (rule TrimRight_prefix)
  ultimately have "\<forall>p \<in> set spaceRunes. \<not> prefix p (TrimRight (TrimLeft s))"
    using prefix_order.trans by blast
  moreover have "\<forall>p \<in> set spaceRunes. \<not> suffix p (TrimRight (TrimLeft s))"
    using TrimRight_trailing [of "TrimLeft s"] by (simp add: trailingSpace_0)
  ultimately show ?thesis by (simp add: trimmed_def TrimSpace_def)
qed

lemma TrimSpace_trimmed: "trimmed s \<Longrightarrow> TrimSpace s = s"
proof -
  assume t: "trimmed s"
  then have "leadingSpace s = 0" "trailingSpace s = 0"
    by (simp_all add: trimmed_def leadingSpace_0 trailingSpace_0)
  then show ?thesis
    by (simp add: TrimSpace_def TrimLeft.simps [of s] TrimRight.simps [of s])
qed

lemma TrimSpace_idem: "TrimSpace (TrimSpace s) = TrimSpace s"
  by (simp add: TrimSpace_trimmed trimmed_TrimSpace)


lemma unescape_Nil [simp]: "unescape [] = []"
  by (simp add: unescape_def ReplaceAll.simps escText_def)

lemma escText_ne: "escText \<noteq> []"
  by (simp add: escText_def)

lemma escText_len: "length escText = 4"
  by (simp add: escText_def)

lemma unescape_hit:
  "prefix escText (x # xs) \<Longrightarrow> unescape (x # xs) = ESC # unescape (drop 3 xs)"
  unfolding unescape_def by (subst ReplaceAll.simps) (simp add: escText_ne escText_len)

lemma unescape_miss:
  "\<not> prefix escText (x # xs) \<Longrightarrow> unescape (x # xs) = x # unescape xs"
  unfolding unescape_def by (subst ReplaceAll.simps) (simp add: escText_ne)

lemma unescape_induct [case_names Nil hit miss]:
  assumes "P []"
    and "\<And>x xs. prefix escText (x # xs) \<Longrightarrow> P (drop 3 xs) \<Longrightarrow> P (x # xs)"
    and "\<And>x xs. \<not> prefix escText (x # xs) \<Longrightarrow> P xs \<Longrightarrow> P (x # xs)"
  shows "P c"
proof (induction c rule: length_induct)
  case (1 c)
  show ?case
  proof (cases c)
    case Nil
    with assms(1) show ?thesis by simp
  next
    case (Cons x xs)
    show ?thesis
    proof (cases "prefix escText (x # xs)")
      case True
      have "length (drop 3 xs) < length c" using Cons by simp
      with 1 have "P (drop 3 xs)" by blast
      with True assms(2) Cons show ?thesis by simp
    next
      case False
      have "length xs < length c" using Cons by simp
      with 1 have "P xs" by blast
      with False assms(3) Cons show ?thesis by simp
    qed
  qed
qed

lemma prefix_escText_hd: "prefix escText (x # xs) \<Longrightarrow> x = BSL"
  by (simp add: escText_def)

lemma prefix_escText_shape:
  "prefix escText (x # xs) \<Longrightarrow> \<exists>r. x # xs = BSL # CHR ''0'' # CHR ''3'' # CHR ''3'' # r \<and> drop 3 xs = r"
  by (auto simp: escText_def prefix_def)

lemma unescape_no_BSL: "BSL \<notin> set s \<Longrightarrow> unescape s = s"
proof (induction s)
  case Nil
  then show ?case by simp
next
  case (Cons x xs)
  then have "\<not> prefix escText (x # xs)"
    by (auto dest: prefix_escText_hd)
  with Cons show ?case by (simp add: unescape_miss)
qed

lemma prefix_unescape:
  "ESC \<notin> set p \<Longrightarrow> BSL \<notin> set p \<Longrightarrow> prefix p (unescape c) \<longleftrightarrow> prefix p c"
proof (induction c arbitrary: p rule: unescape_induct)
  case Nil
  then show ?case by simp
next
  case (hit x xs)
  then show ?case
    by (cases p) (auto simp: unescape_hit dest: prefix_escText_hd)
next
  case (miss x xs)
  then show ?case
    by (cases p) (auto simp: unescape_miss)
qed

lemma Contains_unescape: "\<not> Contains (unescape c) escText"
proof (induction c rule: unescape_induct)
  case Nil
  then show ?case by (simp add: escText_def)
next
  case (hit x xs)
  have "\<not> prefix escText (ESC # unescape (drop 3 xs))"
    by (simp add: escText_def ESC_def BSL_def)
  with hit show ?case
    by (simp add: unescape_hit)
next
  case (miss x xs)
  have "prefix (tl escText) (unescape xs) \<longleftrightarrow> prefix (tl escText) xs"
    by (rule prefix_unescape) (simp_all add: escText_def ESC_def BSL_def)
  with miss show ?case
    by (auto simp: unescape_miss escText_def)
qed

lemma not_Contains_unescape: "\<not> Contains s escText \<Longrightarrow> unescape s = s"
  by (induction s) (auto simp: unescape_miss)

lemma Contains_single: "Contains s [x] \<longleftrightarrow> x \<in> set s"
  by (induction s) auto

lemma unescape_no_ESC: "ESC \<notin> set (unescape c) \<Longrightarrow> unescape c = c"
proof (induction c rule: unescape_induct)
  case Nil
  then show ?case by simp
next
  case (hit x xs)
  then show ?case by (simp add: unescape_hit)
next
  case (miss x xs)
  then show ?case by (simp add: unescape_miss)
qed

lemma suffix_unescape:
  assumes "p \<noteq> []" "ESC \<notin> set p" "BSL \<notin> set p" "CHR ''0'' \<notin> set p" "CHR ''3'' \<notin> set p"
  shows "suffix p (unescape c) \<longleftrightarrow> suffix p c"
proof (induction c rule: unescape_induct)
  case Nil
  then show ?case by simp
next
  case (hit x xs)
  then obtain r where r: "x # xs = BSL # CHR ''0'' # CHR ''3'' # CHR ''3'' # r" "drop 3 xs = r"
    using prefix_escText_shape by blast
  have "suffix p (unescape (x # xs)) \<longleftrightarrow> suffix p (unescape r)"
    using hit(1) r assms by (auto simp: unescape_hit suffix_Cons)
  also have "\<dots> \<longleftrightarrow> suffix p r" using hit(2) r by simp
  also have "\<dots> \<longleftrightarrow> suffix p (x # xs)"
    using assms unfolding r(1) by (auto simp: suffix_Cons)
  finally show ?case .
next
  case (miss x xs)
  have "suffix p (unescape (x # xs)) \<longleftrightarrow> p = x # unescape xs \<or> suffix p (unescape xs)"
    using miss(1) by (simp add: unescape_miss suffix_Cons)
  moreover have "suffix p (x # xs) \<longleftrightarrow> p = x # xs \<or> suffix p xs"
    by (simp add: suffix_Cons)
  moreover have "p = x # unescape xs \<longleftrightarrow> p = x # xs"
  proof
    assume e: "p = x # unescape xs"
    with assms have "ESC \<notin> set (unescape xs)" by auto
    then have "unescape xs = xs" by (rule unescape_no_ESC)
    with e show "p = x # xs" by simp
  next
    assume e: "p = x # xs"
    with assms have "BSL \<notin> set xs" by auto
    then have "unescape xs = xs" by (rule unescape_no_BSL)
    with e show "p = x # unescape xs" by simp
  qed
  ultimately show ?case using miss(2) by simp
qed

lemma spaceRunes_chars:
  "p \<in> set spaceRunes \<Longrightarrow>
     p \<noteq> [] \<and> ESC \<notin> set p \<and> BSL \<notin> set p \<and> CHR ''0'' \<notin> set p \<and> CHR ''3'' \<notin> set p
     \<and> hd p \<noteq> ESC \<and> last p \<noteq> CHR ''m''"
  by (auto simp: spaceRunes_def ESC_def BSL_def)

lemma trimmed_unescape: "trimmed c \<Longrightarrow> trimmed (unescape c)"
proof -
  assume t: "trimmed c"
  have "\<not> prefix p (unescape c) \<and> \<not> suffix p (unescape c)" if "p \<in> set spaceRunes" for p
  proof -
    from that have p: "p \<noteq> []" "ESC \<notin> set p" "BSL \<notin> set p" "CHR ''0'' \<notin> set p" "CHR ''3'' \<notin> set p"
      using spaceRunes_chars by blast+
    from t that have "\<not> prefix p c" "\<not> suffix p c" by (simp_all add: trimmed_def)
    with p show ?thesis by (simp add: prefix_unescape suffix_unescape)
  qed
  then show ?thesis by (simp add: trimmed_def)
qed

lemma trimmed_ansi: "trimmed (ansi code)"
proof -
  have "\<not> prefix p (ansi code) \<and> \<not> suffix p (ansi code)" if "p \<in> set spaceRunes" for p
  proof -
    from that have p: "p \<noteq> []" "hd p \<noteq> ESC" "last p \<noteq> CHR ''m''"
      using spaceRunes_chars by blast+
    have "\<not> prefix p (ansi code)"
      using p by (cases p) (auto simp: ansi_def)
    moreover have "\<not> suffix p (ansi code)"
    proof
      assume "suffix p (ansi code)"
      then obtain z where "ansi code = z @ p" by (auto simp: suffix_def)
      with p(1) have "last p = last (ansi code)" by simp
      with p(3) show False by (simp add: ansi_def)
    qed
    ultimately show ?thesis by simp
  qed
  then show ?thesis by (simp add: trimmed_def)
qed

lemma lowerByte_ESC: "lowerByte c = ESC \<longleftrightarrow> c = ESC"
proof (cases "65 \<le> byte c \<and> byte c \<le> 90")
  case True
  have "char_of (byte c + 32) \<noteq> ESC"
  proof
    assume "char_of (byte c + 32) = ESC"
    then have "(of_char (char_of (byte c + 32)) :: nat) = of_char ESC" by simp
    with True show False by (simp add: ESC_def)
  qed
  moreover from True have "c \<noteq> ESC" by (auto simp: byte_def ESC_def)
  moreover from True have "lowerByte c = char_of (byte c + 32)" by (simp add: lowerByte_def)
  ultimately show ?thesis by metis
next
  case False
  then have "lowerByte c = c" by (auto simp: lowerByte_def)
  then show ?thesis by simp
qed

lemma lowerByte_ESC_eq: "lowerByte ESC = ESC"
  by (simp add: lowerByte_ESC)

lemma ToLower_ESC: "ESC \<in> set s \<Longrightarrow> ESC \<in> set (ToLower s)"
proof (induction s rule: ToLower.induct)
  case 1
  then show ?case by simp
next
  case (2 a)
  then show ?case by (auto simp: lowerByte_ESC_eq)
next
  case (3 a b)
  have "a = CHR 0xC4 \<Longrightarrow> a \<noteq> ESC" "b = CHR 0xB0 \<Longrightarrow> b \<noteq> ESC"
    by (simp_all add: ESC_def)
  with 3 show ?case by (auto simp: lowerByte_ESC_eq)
next
  case (4 a b c s)
  have "a = CHR 0xC4 \<Longrightarrow> a \<noteq> ESC" "b = CHR 0xB0 \<Longrightarrow> b \<noteq> ESC"
    "a = CHR 0xE2 \<Longrightarrow> a \<noteq> ESC" "b = CHR 0x84 \<Longrightarrow> b \<noteq> ESC" "c = CHR 0xAA \<Longrightarrow> c \<noteq> ESC"
    by (simp_all add: ESC_def)
  with 4 show ?case by (auto simp: lowerByte_ESC_eq)
qed

lemma parseColor_other:
  assumes "trimmed c" "c \<noteq> []" "ToLower c \<notin> colorNames"
  shows "parseColor c =
     (if Contains c [ESC] \<or> Contains c escText then unescape c
      else if Atoi c \<noteq> None then ansi c else c)"
  using assms by (simp add: parseColor_def TrimSpace_trimmed colorNames_def unescape_def Let_def)

lemma ESC_not_name: "ESC \<in> set s \<Longrightarrow> s \<notin> colorNames"
  by (auto simp: colorNames_def ESC_def)

lemma parseColor_ESC:
  assumes "trimmed r" "ESC \<in> set r"
  shows "parseColor r = unescape r"
proof -
  from assms(2) have "r \<noteq> []" by auto
  moreover have "ToLower r \<notin> colorNames"
    using assms(2) by (simp add: ToLower_ESC ESC_not_name)
  ultimately show ?thesis
    using assms by (simp add: parseColor_other Contains_single)
qed

lemma ESC_in_ansi: "ESC \<in> set (ansi code)"
  by (simp add: ansi_def)

lemma parseColor_ansi: "BSL \<notin> set code \<Longrightarrow> parseColor (ansi code) = ansi code"
proof -
  assume a: "BSL \<notin> set code"
  have "parseColor (ansi code) = unescape (ansi code)"
    by (rule parseColor_ESC) (simp_all add: trimmed_ansi ESC_in_ansi)
  moreover have "BSL \<notin> set (ansi code)"
    using a by (simp add: ansi_def BSL_def ESC_def)
  ultimately show ?thesis by (simp add: unescape_no_BSL)
qed

lemma ESC_in_unescape:
  "Contains c [ESC] \<or> Contains c escText \<Longrightarrow> ESC \<in> set (unescape c)"
proof (induction c rule: unescape_induct)
  case Nil
  then show ?case by (simp add: escText_def)
next
  case (hit x xs)
  then show ?case by (simp add: unescape_hit)
next
  case (miss x xs)
  then show ?case by (auto simp: unescape_miss Contains_single)
qed

lemma unescape_idem: "unescape (unescape c) = unescape c"
  by (simp add: not_Contains_unescape Contains_unescape)

lemma Atoi_chars: "Atoi s \<noteq> None \<Longrightarrow> BSL \<notin> set s"
proof -
  assume a: "Atoi s \<noteq> None"
  have d: "list_all isDigit ds \<Longrightarrow> BSL \<notin> set ds" for ds
    by (auto simp: list_all_iff isDigit_def BSL_def byte_def)
  show ?thesis
  proof (cases s)
    case Nil
    then show ?thesis by simp
  next
    case (Cons x xs)
    with a d [of xs] d [of s] show ?thesis
      by (auto simp: Atoi_def Let_def BSL_def split: if_splits)
  qed
qed

lemma parseColor_named:
  assumes "TrimSpace c \<noteq> []" "ToLower (TrimSpace c) \<in> colorNames"
  shows "parseColor c = [] \<or> (\<exists>code \<in> namedCodes. parseColor c = ansi code)"
proof -
  from assms(2) consider
      "ToLower (TrimSpace c) = ''red''" | "ToLower (TrimSpace c) = ''green''"
    | "ToLower (TrimSpace c) = ''yellow''" | "ToLower (TrimSpace c) = ''blue''"
    | "ToLower (TrimSpace c) = ''magenta''" | "ToLower (TrimSpace c) = ''cyan''"
    | "ToLower (TrimSpace c) = ''white''" | "ToLower (TrimSpace c) = ''gray''"
    | "ToLower (TrimSpace c) = ''grey''" | "ToLower (TrimSpace c) = ''none''"
    | "ToLower (TrimSpace c) = ''off''"
    unfolding colorNames_def by blast
  then show ?thesis
    using assms(1) by cases (simp_all add: parseColor_def namedCodes_def)
qed

text \<open>
  Claim C9.  The color resolver is idempotent: resolving an already resolved color (an
  escape sequence it produced, the empty string, or a string it passed through) gives
  that color again.
\<close>

theorem parseColor_idempotent: "parseColor (parseColor c) = parseColor c"
proof -
  define t where "t = TrimSpace c"
  have tt: "trimmed t" by (simp add: t_def trimmed_TrimSpace)
  have nil: "parseColor [] = []"
    by (simp add: parseColor_def TrimSpace_def TrimLeft.simps TrimRight.simps
        leadingSpace_def trailingSpace_def spaceRunes_def)
  have fix_ansi: "parseColor (ansi code) = ansi code" if "code \<in> namedCodes" for code
  proof -
    from that have "BSL \<notin> set code" by (auto simp: namedCodes_def BSL_def)
    then show ?thesis by (rule parseColor_ansi)
  qed
  show ?thesis
  proof (cases "t = []")
    case True
    then have "parseColor c = []" by (simp add: parseColor_def t_def)
    with nil show ?thesis by simp
  next
    case ne: False
    show ?thesis
    proof (cases "ToLower t \<in> colorNames")
      case True
      then have "parseColor c = [] \<or> (\<exists>code \<in> namedCodes. parseColor c = ansi code)"
        using ne unfolding t_def by (intro parseColor_named)
      with nil fix_ansi show ?thesis by auto
    next
      case False
      have pc: "parseColor c = parseColor t"
        by (simp add: parseColor_def t_def TrimSpace_idem)
      have pt: "parseColor t =
        (if Contains t [ESC] \<or> Contains t escText then unescape t
         else if Atoi t \<noteq> None then ansi t else t)"
        using tt ne False by (rule parseColor_other)
      show ?thesis
      proof (cases "Contains t [ESC] \<or> Contains t escText")
        case True
        then have "ESC \<in> set (unescape t)" by (rule ESC_in_unescape)
        moreover have "trimmed (unescape t)" using tt by (rule trimmed_unescape)
        ultimately have "parseColor (unescape t) = unescape (unescape t)"
          by (simp add: parseColor_ESC)
        with True pc pt show ?thesis by (simp add: unescape_idem)
      next
        case esc: False
        show ?thesis
        proof (cases "Atoi t \<noteq> None")
          case True
          then have "parseColor (ansi t) = ansi t"
            by (intro parseColor_ansi Atoi_chars)
          with True esc pc pt show ?thesis by simp
        next
          case False
          with esc pc pt show ?thesis by simp
        qed
      qed
    qed
  qed
qed

theorem parseColor_idempotent_witness:
  "parseColor (parseColor ''  RED '') = parseColor ''  RED '' \<and> parseColor ''  RED '' = ESC # ''[31m''"
proof -
  have "parseColor ''  RED '' = ESC # ''[31m''"
    by code_simp
  with parseColor_idempotent [of "''  RED ''"] show ?thesis by simp
qed

section \<open>What the resolver returns\<close>

lemma parseColor_empty:
  assumes "TrimSpace c = [] \<or> ToLower (TrimSpace c) = ''none'' \<or> ToLower (TrimSpace c) = ''off''"
  shows "parseColor c = []"
  using assms by (auto simp: parseColor_def Let_def)

lemma parseColor_verbatim:
  assumes "TrimSpace c \<noteq> []" and "ToLower (TrimSpace c) \<notin> colorNames"
    and "\<not> Contains (TrimSpace c) [ESC]" and "\<not> Contains (TrimSpace c) escText"
    and "Atoi (TrimSpace c) = None"
  shows "parseColor c = TrimSpace c"
proof -
  have "parseColor c = parseColor (TrimSpace c)"
    by (simp add: parseColor_def TrimSpace_idem)
  also have "\<dots> = TrimSpace c"
    using assms by (simp add: parseColor_other trimmed_TrimSpace)
  finally show ?thesis .
qed

lemma parseColor_red:
  "parseColor ''red'' = ESC # ''[31m''" "parseColor ''31'' = ESC # ''[31m''"
  "parseColor (ESC # ''[31m'') = ESC # ''[31m''" "parseColor (BSL # ''033[31m'') = ESC # ''[31m''"
  by code_simp+

text \<open>
  Claim C6, as the code has it.  The resolver maps \<^verbatim>\<open>red\<close>, \<^verbatim>\<open>31\<close>, the escape sequence
  itself and its textual form \<^verbatim>\<open>\033[31m\<close> to the red foreground escape; it maps an input
  that trims to the empty string, or that after trimming is \<^verbatim>\<open>none\<close> or \<^verbatim>\<open>off\<close> in any
  case of letters, to the empty string; and for an input that after trimming is not
  empty, not a name of the switch, no integer and holds no escape marker it returns the
  trimmed input.  It is a total function: it returns a string for every input.
\<close>

theorem parseColor_resolves:
  "parseColor ''red'' = ESC # ''[31m'' \<and> parseColor ''31'' = ESC # ''[31m'' \<and>
   parseColor (ESC # ''[31m'') = ESC # ''[31m'' \<and>
   parseColor (BSL # ''033[31m'') = ESC # ''[31m'' \<and>
   (TrimSpace c = [] \<or> ToLower (TrimSpace c) = ''none'' \<or> ToLower (TrimSpace c) = ''off''
      \<longrightarrow> parseColor c = []) \<and>
   (TrimSpace c \<noteq> [] \<and> ToLower (TrimSpace c) \<notin> colorNames \<and>
    \<not> Contains (TrimSpace c) [ESC] \<and> \<not> Contains (TrimSpace c) escText \<and>
    Atoi (TrimSpace c) = None
      \<longrightarrow> parseColor c = TrimSpace c)"
  by (simp add: parseColor_red parseColor_empty parseColor_verbatim)

lemma foo_facts:
  "TrimSpace '' foo '' = ''foo''" "ToLower ''foo'' = ''foo''" "\<not> Contains ''foo'' [ESC]"
  "\<not> Contains ''foo'' escText" "Atoi ''foo'' = None"
  "ToLower '' foo '' = '' foo ''" "\<not> Contains '' foo '' [ESC]"
  "\<not> Contains '' foo '' escText" "Atoi '' foo '' = None"
  "TrimSpace '' Off '' = ''Off''" "ToLower ''Off'' = ''off''"
  by code_simp+

theorem parseColor_resolves_witness:
  "ToLower (TrimSpace '' Off '') = ''off'' \<and> parseColor '' Off '' = [] \<and>
   TrimSpace '' foo '' = ''foo'' \<and> ToLower (TrimSpace '' foo '') \<notin> colorNames \<and>
   Atoi (TrimSpace '' foo '') = None \<and> parseColor '' foo '' = ''foo''"
  using parseColor_resolves [of "'' Off ''"] parseColor_resolves [of "'' foo ''"]
  by (simp add: foo_facts colorNames_def del: ToLower.simps Contains.simps)

text \<open>
  Claim C6 as stated fails in its last part.  The input \<^verbatim>\<open>foo\<close> between two spaces is
  not empty, no name of the switch, no integer and holds no escape marker, and the
  resolver returns it without the spaces, not verbatim.
\<close>

theorem parseColor_verbatim_counterexample:
  "'' foo '' \<noteq> [] \<and> ToLower '' foo '' \<notin> colorNames \<and> Atoi '' foo '' = None \<and>
   \<not> Contains '' foo '' [ESC] \<and> \<not> Contains '' foo '' escText \<and>
   parseColor '' foo '' \<noteq> '' foo ''"
proof -
  have "parseColor '' foo '' = ''foo''"
    using parseColor_verbatim [of "'' foo ''"] by (simp add: foo_facts colorNames_def del: ToLower.simps Contains.simps)
  then show ?thesis by (simp add: foo_facts colorNames_def del: ToLower.simps Contains.simps)
qed

section \<open>The global logger: what initialisation changes\<close>

lemma initConfig_keeps:
  "writers (initConfig w) = writers w" "levelVars (initConfig w) = levelVars w"
  "logger (initConfig w) = logger w" "level (initConfig w) = level w"
  "isInit (initConfig w) = isInit w" "initOnce (initConfig w) = initOnce w"
  "env (initConfig w) = env w" "frames (initConfig w) = frames w"
  "arrays (initConfig w) = arrays w" "nextLevelVar (initConfig w) = nextLevelVar w"
  by (simp_all add: initConfig_def Let_def split: option.splits)

lemma Init_fired: "initOnce w \<Longrightarrow> Init w = w"
  by (simp add: Init_def)

lemma Init_fresh:
  assumes "\<not> initOnce w"
  shows "writers (Init w) = writers w"
    and "logger (Init w) =
           Some \<lparr>h_level = nextLevelVar w, h_writer = stdout, h_attrs = nilSlice, h_groups = []\<rparr>"
    and "level (Init w) = Some (nextLevelVar w)"
    and "levelVars (Init w) (nextLevelVar w) = parseLevel (env w ''LOG_LEVEL'')"
    and "isInit (Init w)" and "initOnce (Init w)"
  using assms
  by (simp_all add: Init_def Let_def NewColoredHandler_def initConfig_keeps)

lemma writers_Init: "writers (Init w) = writers w"
  by (cases "initOnce w") (simp_all add: Init_fired Init_fresh)

lemma writers_ensureInit: "writers (ensureInit w) = writers w"
  by (simp add: ensureInit_def writers_Init)

lemma initialised_Init: "\<not> initOnce w \<Longrightarrow> initialised (Init w)"
  by (simp add: initialised_def Init_fresh)

lemma floorOf_Init:
  "\<not> initOnce w \<Longrightarrow> floorOf (Init w) = Some (parseLevel (env w ''LOG_LEVEL''))"
  by (simp add: floorOf_def Init_fresh)

lemma ensureInit_initialised: "initialised w \<Longrightarrow> ensureInit w = w"
  by (simp add: initialised_def ensureInit_def)

lemma initialised_floor:
  "initialised w \<Longrightarrow> \<exists>a. level w = Some a \<and> floorOf w = Some (levelVars w a)"
  by (auto simp: initialised_def floorOf_def split: option.splits)

lemma parseLevel_empty: "parseLevel [] = LevelInfo"
  by code_simp

lemma exWorld_start: "\<not> initOnce exWorld" "\<not> isInit exWorld" "env exWorld = (\<lambda>_. [])"
  "writers exWorld = (\<lambda>_. okSink)" "frames exWorld = exFrames"
  by (simp_all add: exWorld_def start_def)

lemma exFailing_start: "\<not> initOnce exFailing" "\<not> isInit exFailing" "env exFailing = (\<lambda>_. [])"
  "writers exFailing = (\<lambda>_. failingSink)" "frames exFailing = exFrames"
  by (simp_all add: exFailing_def start_def)

lemma Handle_write:
  "fst (Handle h r w) = reply (writers w (h_writer h)) (calls (writers w (h_writer h))) (renderLine h r w)"
  "calls (writers (snd (Handle h r w)) (h_writer h)) = calls (writers w (h_writer h)) @ [renderLine h r w]"
  "fd \<noteq> h_writer h \<Longrightarrow> writers (snd (Handle h r w)) fd = writers w fd"
  by (simp_all add: Handle_def Write_def Let_def)

lemma Handle_keeps:
  "levelVars (snd (Handle h r w)) = levelVars w" "logger (snd (Handle h r w)) = logger w"
  "level (snd (Handle h r w)) = level w" "isInit (snd (Handle h r w)) = isInit w"
  by (simp_all add: Handle_def Write_def Let_def)

text \<open>
  Claim C5.  For every severity below the floor, the entry point of that severity
  (Trace, Debug, Info, Warn, Error) returns after the initialisation it may have had to
  run, without calling the writer: no byte reaches any sink.
\<close>

theorem below_floor_writes_nothing:
  assumes "floorOf (ensureInit w) = Some f" and "severity e < f"
  shows "entryPoint e msg args now pc w = Some (ensureInit w) \<and>
         writers (ensureInit w) = writers w"
proof -
  from assms(1) obtain h where h: "logger (ensureInit w) = Some h"
      "levelVars (ensureInit w) (h_level h) = f"
    by (auto simp: floorOf_def split: option.splits)
  with assms(2) have "\<not> Enabled h (severity e) (ensureInit w)"
    by (simp add: Enabled_def)
  with h have "logWithCaller (severity e) msg args now pc w = Some (ensureInit w)"
    by (simp add: logWithCaller_def Let_def)
  then have "entryPoint e msg args now pc w = Some (ensureInit w)"
    by (cases e) (simp_all add: Trace_def Debug_def Info_def Warn_def Error_def)
  then show ?thesis by (simp add: writers_ensureInit)
qed

theorem below_floor_writes_nothing_witness:
  "floorOf (ensureInit exWorld) = Some LevelInfo \<and> severity EDebug < LevelInfo \<and>
   Debug ''x'' [] exTime 7 exWorld = Some (ensureInit exWorld) \<and>
   calls (writers (ensureInit exWorld) stdout) = []"
proof -
  have f: "floorOf (ensureInit exWorld) = Some LevelInfo"
    by (simp add: ensureInit_def exWorld_start floorOf_Init parseLevel_empty)
  have s: "severity EDebug < LevelInfo"
    by (simp add: LevelDebug_def LevelInfo_def)
  from below_floor_writes_nothing [OF f s, of "''x''" "[]" exTime 7]
  show ?thesis using f s by (simp add: exWorld_start okSink_def)
qed

text \<open>
  Claim C10.  When \<^verbatim>\<open>recover()\<close> yields nil, \<^verbatim>\<open>Recover\<close> returns the state it was
  called in: nothing is written and no variable of the package changes.
\<close>

theorem Recover_nil_changes_nothing: "Recover None stack now pc w = Some w"
  by (simp add: Recover_def)

theorem Recover_nil_changes_nothing_witness:
  "Recover None ''goroutine 1 [running]'' exTime 7 exWorld = Some exWorld"
  by (rule Recover_nil_changes_nothing)

lemma exLogger_fields: "h_writer exLogger = stdout" "h_level exLogger = 0"
  by (simp_all add: exLogger_def)

lemma logWithCaller_enabled:
  assumes "logger (ensureInit w) = Some h" and "Enabled h lvl (ensureInit w)"
  shows "logWithCaller lvl msg args now pc w =
           Some (snd (Handle h (Add (NewRecord now lvl msg pc) args) (ensureInit w)))"
  using assms by (simp add: logWithCaller_def Let_def)

lemma logWithCaller_disabled:
  assumes "logger (ensureInit w) = Some h" and "\<not> Enabled h lvl (ensureInit w)"
  shows "logWithCaller lvl msg args now pc w = Some (ensureInit w)"
  using assms by (simp add: logWithCaller_def Let_def)

lemma logger_Init_start:
  "logger (Init exWorld) = Some exLogger" "logger (Init exFailing) = Some exLogger"
  "levelVars (Init exWorld) 0 = LevelInfo" "levelVars (Init exFailing) 0 = LevelInfo"
  "level (Init exWorld) = Some 0"
  using Init_fresh [of exWorld] Init_fresh [of exFailing]
  by (simp_all add: exWorld_start exFailing_start exLogger_def parseLevel_empty)
     (simp_all add: exWorld_def exFailing_def start_def)

text \<open>
  Claim C1, as the code has it.  For a record that passes the floor, \<^verbatim>\<open>Handle\<close> calls
  the writer exactly once, with the rendered line, and returns the error of that call to
  its caller \<^verbatim>\<open>logWithCaller\<close>; \<^verbatim>\<open>logWithCaller\<close> keeps the state and discards the
  error, and neither it nor the entry points have a result in which the error could
  reach the caller of the logging call.
\<close>

theorem write_once_error_discarded:
  assumes "logger (ensureInit w) = Some h" and "Enabled h lvl (ensureInit w)"
  shows "(let w1 = ensureInit w;
              r = Add (NewRecord now lvl msg pc) args;
              k = writers w1 (h_writer h)
          in fst (Handle h r w1) = reply k (calls k) (renderLine h r w1) \<and>
             calls (writers (snd (Handle h r w1)) (h_writer h)) = calls k @ [renderLine h r w1] \<and>
             logWithCaller lvl msg args now pc w = Some (snd (Handle h r w1)))"
  using assms by (simp add: Let_def Handle_write logWithCaller_enabled)

lemma exFailing_enabled:
  "logger (ensureInit exFailing) = Some exLogger" "Enabled exLogger LevelInfo (ensureInit exFailing)"
  by (simp_all add: ensureInit_def exFailing_start logger_Init_start Enabled_def exLogger_def)

theorem write_once_error_discarded_witness:
  "logger (ensureInit exFailing) = Some exLogger \<and>
   Enabled exLogger LevelInfo (ensureInit exFailing) \<and>
   length (calls (writers (snd (Handle exLogger (Add (NewRecord exTime LevelInfo ''x'' 7) [])
      (ensureInit exFailing))) stdout)) = 1 \<and>
   logWithCaller LevelInfo ''x'' [] exTime 7 exFailing =
     Some (snd (Handle exLogger (Add (NewRecord exTime LevelInfo ''x'' 7) []) (ensureInit exFailing)))"
  using write_once_error_discarded [OF exFailing_enabled, of exTime "''x''" 7 "[]"]
  by (simp add: Let_def exFailing_enabled exLogger_fields writers_ensureInit exFailing_start
      failingSink_def)

text \<open>
  Claim C1 as stated fails.  With a writer that fails on every call, \<^verbatim>\<open>Handle\<close> returns
  the error \<^verbatim>\<open>EIO\<close>, and \<^verbatim>\<open>Info\<close> returns normally with the state \<^verbatim>\<open>Handle\<close> left: the
  error is dropped by the blank assignment and the caller of \<^verbatim>\<open>Info\<close> receives no value.
\<close>

theorem write_error_dropped_counterexample:
  "fst (Handle exLogger (Add (NewRecord exTime LevelInfo ''x'' 7) []) (Init exFailing)) = Some ''EIO'' \<and>
   Info ''x'' [] exTime 7 exFailing =
     Some (snd (Handle exLogger (Add (NewRecord exTime LevelInfo ''x'' 7) []) (Init exFailing)))"
proof -
  have e: "ensureInit exFailing = Init exFailing"
    by (simp add: ensureInit_def exFailing_start)
  have "fst (Handle exLogger (Add (NewRecord exTime LevelInfo ''x'' 7) []) (Init exFailing)) = Some ''EIO''"
    by (simp add: Handle_write writers_Init exFailing_start failingSink_def)
  moreover have "Info ''x'' [] exTime 7 exFailing =
     Some (snd (Handle exLogger (Add (NewRecord exTime LevelInfo ''x'' 7) []) (Init exFailing)))"
    using logWithCaller_enabled [OF exFailing_enabled, of "''x''" "[]" exTime 7]
    by (simp add: Info_def e)
  ultimately show ?thesis by simp
qed

section \<open>SetLevel\<close>

lemma SetLevel_nil: "level w = None \<Longrightarrow> SetLevel s w = w"
  by (simp add: SetLevel_def)

lemma SetLevel_initialised:
  assumes "initialised w"
  shows "initialised (SetLevel s w)" and "floorOf (SetLevel s w) = Some (parseLevel s)"
    and "writers (SetLevel s w) = writers w"
  using assms
  by (auto simp: initialised_def SetLevel_def floorOf_def split: option.splits)

lemma logWithCaller_initialised:
  assumes "initialised w" and "floorOf w = Some f"
  shows "\<exists>w'. logWithCaller lvl msg args now pc w = Some w' \<and> initialised w' \<and>
           floorOf w' = Some f \<and>
           length (calls (writers w' stdout)) =
             length (calls (writers w stdout)) + (if f \<le> lvl then 1 else 0)"
proof -
  from assms obtain a h where a: "level w = Some a" "logger w = Some h" "h_level h = a"
      "h_writer h = stdout" "levelVars w a = f" "isInit w"
    by (auto simp: initialised_def floorOf_def split: option.splits)
  have e: "ensureInit w = w" using assms(1) by (rule ensureInit_initialised)
  show ?thesis
  proof (cases "f \<le> lvl")
    case True
    with a have "Enabled h lvl (ensureInit w)" by (simp add: e Enabled_def)
    with a e have "logWithCaller lvl msg args now pc w =
        Some (snd (Handle h (Add (NewRecord now lvl msg pc) args) w))"
      using logWithCaller_enabled [of w h lvl] by simp
    moreover have "initialised (snd (Handle h (Add (NewRecord now lvl msg pc) args) w))"
      using assms(1) by (auto simp: initialised_def Handle_keeps split: option.splits)
    moreover have "floorOf (snd (Handle h (Add (NewRecord now lvl msg pc) args) w)) = Some f"
      using assms(2) by (simp add: floorOf_def Handle_keeps split: option.splits)
    ultimately show ?thesis
      using True a(4) Handle_write(2) [of h _ w] by simp
  next
    case False
    with a have "\<not> Enabled h lvl (ensureInit w)" by (simp add: e Enabled_def)
    with a e have "logWithCaller lvl msg args now pc w = Some w"
      using logWithCaller_disabled [of w h lvl] by simp
    with assms False show ?thesis by simp
  qed
qed

lemma sourceOf_levelVars: "sourceOf r (w\<lparr>levelVars := lv\<rparr>) = sourceOf r w"
  by (simp add: sourceOf_def Let_def split: prod.splits)

lemma formatLevel_levelVars:
  "formatLevelWithColor l (w\<lparr>levelVars := lv\<rparr>) = formatLevelWithColor l w"
  by (simp add: formatLevelWithColor_def Let_def)

lemma renderLine_levelVars:
  "renderLine h r (w\<lparr>levelVars := lv\<rparr>) = renderLine h r w"
  by (simp add: renderLine_def sourceOf_levelVars formatLevel_levelVars elems_def)

lemma renderLine_SetLevel: "renderLine h r (SetLevel s w) = renderLine h r w"
  by (simp add: SetLevel_def renderLine_levelVars split: option.splits)

text \<open>
  Claim C3, as the code has it.  While \<^verbatim>\<open>level\<close> is nil, that is before \<^verbatim>\<open>Init\<close> or
  the first logging call has run, \<^verbatim>\<open>SetLevel\<close> does nothing.  Once the logger is
  initialised, \<^verbatim>\<open>SetLevel(s)\<close> makes the level parsed from \<open>s\<close> the floor; a logging call
  made then writes one line when its severity is at or above that floor and none
  otherwise, and leaves the floor as it is, for the calls after it.  The line that
  \<^verbatim>\<open>Handle\<close> renders does not depend on the floor, so a call past its check is not
  affected.
\<close>

theorem SetLevel_replaces_floor_once_initialised:
  "(level w = None \<longrightarrow> SetLevel s w = w) \<and>
   (initialised w \<longrightarrow>
      floorOf (SetLevel s w) = Some (parseLevel s) \<and>
      (\<exists>w'. logWithCaller lvl msg args now pc (SetLevel s w) = Some w' \<and>
         initialised w' \<and> floorOf w' = Some (parseLevel s) \<and>
         length (calls (writers w' stdout)) =
           length (calls (writers w stdout)) + (if parseLevel s \<le> lvl then 1 else 0))) \<and>
   renderLine h r (SetLevel s w) = renderLine h r w"
proof (intro conjI impI)
  assume "level w = None"
  then show "SetLevel s w = w" by (rule SetLevel_nil)
next
  assume "initialised w"
  then show "floorOf (SetLevel s w) = Some (parseLevel s)" by (rule SetLevel_initialised)
next
  assume i: "initialised w"
  then have "initialised (SetLevel s w)" "floorOf (SetLevel s w) = Some (parseLevel s)"
    by (rule SetLevel_initialised)+
  from logWithCaller_initialised [OF this, of lvl msg args now pc]
  show "\<exists>w'. logWithCaller lvl msg args now pc (SetLevel s w) = Some w' \<and>
         initialised w' \<and> floorOf w' = Some (parseLevel s) \<and>
         length (calls (writers w' stdout)) =
           length (calls (writers w stdout)) + (if parseLevel s \<le> lvl then 1 else 0)"
    using i by (simp add: SetLevel_initialised)
next
  show "renderLine h r (SetLevel s w) = renderLine h r w" by (rule renderLine_SetLevel)
qed

lemma parseLevel_DEBUG: "parseLevel ''DEBUG'' = LevelDebug"
  by code_simp

theorem SetLevel_replaces_floor_once_initialised_witness:
  "level exWorld = None \<and> SetLevel ''DEBUG'' exWorld = exWorld \<and>
   initialised (Init exWorld) \<and>
   floorOf (SetLevel ''DEBUG'' (Init exWorld)) = Some LevelDebug \<and>
   (\<exists>w'. logWithCaller LevelDebug ''x'' [] exTime 7 (SetLevel ''DEBUG'' (Init exWorld)) = Some w' \<and>
      length (calls (writers w' stdout)) = 1)"
proof -
  have n: "level exWorld = None" by (simp add: exWorld_def start_def)
  have i: "initialised (Init exWorld)" by (simp add: initialised_Init exWorld_start)
  have c: "calls (writers (Init exWorld) stdout) = []"
    by (simp add: writers_Init exWorld_start okSink_def)
  from SetLevel_replaces_floor_once_initialised [of exWorld "''DEBUG''"] n
  have 1: "SetLevel ''DEBUG'' exWorld = exWorld" by simp
  from SetLevel_replaces_floor_once_initialised
    [of "Init exWorld" "''DEBUG''" LevelDebug "''x''" "[]" exTime 7] i c
  have 2: "floorOf (SetLevel ''DEBUG'' (Init exWorld)) = Some LevelDebug \<and>
    (\<exists>w'. logWithCaller LevelDebug ''x'' [] exTime 7 (SetLevel ''DEBUG'' (Init exWorld)) = Some w' \<and>
      length (calls (writers w' stdout)) = 1)"
    by (auto simp: parseLevel_DEBUG)
  from n i 1 2 show ?thesis by simp
qed

text \<open>
  Claim C3 as stated fails before initialisation.  In the state at process start
  \<^verbatim>\<open>SetLevel("DEBUG")\<close> changes nothing; the \<^verbatim>\<open>Debug\<close> call after it initialises the
  logger with the floor of the environment (INFO), and writes nothing.
\<close>

theorem SetLevel_before_Init_counterexample:
  "parseLevel ''DEBUG'' = LevelDebug \<and>
   floorOf (ensureInit (SetLevel ''DEBUG'' exWorld)) = Some LevelInfo \<and>
   Debug ''x'' [] exTime 7 (SetLevel ''DEBUG'' exWorld) = Some (Init exWorld) \<and>
   calls (writers (Init exWorld) stdout) = []"
proof -
  have s: "SetLevel ''DEBUG'' exWorld = exWorld"
    by (simp add: SetLevel_def exWorld_def start_def)
  have e: "ensureInit exWorld = Init exWorld"
    by (simp add: ensureInit_def exWorld_start)
  have f: "floorOf (Init exWorld) = Some LevelInfo"
    by (simp add: floorOf_Init exWorld_start parseLevel_empty)
  have "\<not> Enabled exLogger LevelDebug (ensureInit exWorld)"
    by (simp add: e Enabled_def exLogger_def logger_Init_start) (simp add: LevelDebug_def LevelInfo_def)
  then have "Debug ''x'' [] exTime 7 exWorld = Some (Init exWorld)"
    using logWithCaller_disabled [of exWorld exLogger LevelDebug]
    by (simp add: Debug_def e logger_Init_start)
  moreover have "calls (writers (Init exWorld) stdout) = []"
    by (simp add: writers_Init exWorld_start okSink_def)
  ultimately show ?thesis by (simp add: s e f parseLevel_DEBUG)
qed

section \<open>Formatting without escape bytes\<close>

lemma plain_simps [simp]:
  "plain []" "plain (x # s) \<longleftrightarrow> x \<noteq> ESC \<and> plain s" "plain (s @ t) \<longleftrightarrow> plain s \<and> plain t"
  by (auto simp: plain_def)

lemma plain_replicate: "x \<noteq> ESC \<Longrightarrow> plain (replicate n x)"
  by (simp add: plain_def)

lemma plain_take: "plain s \<Longrightarrow> plain (take n s)"
  by (auto simp: plain_def dest: in_set_takeD)

lemma digit_not_ESC: "char_of (48 + k mod 10 :: nat) \<noteq> ESC"
proof
  assume "char_of (48 + k mod 10) = ESC"
  then have "(of_char (char_of (48 + k mod 10)) :: nat) = of_char ESC" by simp
  moreover have "k mod 10 < 10" by simp
  ultimately show False by (simp add: ESC_def)
qed

lemma plain_digits: "plain (digits n)"
proof (induction n rule: digits.induct)
  case (1 n)
  show ?case
  proof (cases "n < 10")
    case True
    with digit_not_ESC [of n] show ?thesis
      by (subst digits.simps) simp
  next
    case False
    with 1 digit_not_ESC [of n] show ?thesis
      by (subst digits.simps) simp
  qed
qed

lemma plain_itoa: "plain (itoa i)"
  by (simp add: itoa_def plain_digits ESC_def)

lemma plain_zpad: "plain (zpad k n)"
  by (simp add: zpad_def plain_digits plain_replicate ESC_def)

lemma plain_Format: "plain (Format t)"
  by (simp add: Format_def plain_zpad ESC_def)

lemma plain_padRight: "plain s \<Longrightarrow> plain (padRight n s)"
  by (simp add: padRight_def plain_replicate ESC_def)

lemma plain_padRightStar: "plain s \<Longrightarrow> plain (padRightStar n s)"
  by (simp add: padRightStar_def plain_padRight ESC_def)

lemma plain_fitSource: "plain s \<Longrightarrow> plain (fitSource n s)"
  by (simp add: fitSource_def plain_padRightStar plain_take)

lemma plain_baseName: "plain file \<Longrightarrow> plain (baseName file)"
  by (auto simp: plain_def baseName_def dest: set_takeWhileD)

lemma formatLevel_disabled:
  "colorsDisabled w \<Longrightarrow> snd (formatLevelWithColor l w) = [] \<and> plain (fst (formatLevelWithColor l w))"
  by (simp add: formatLevelWithColor_def Let_def plain_padRight ESC_def)

lemma plain_sourceOf:
  assumes "colorsDisabled w" and "plain (fst (frames w (PC r)))"
  shows "plain (sourceOf r w)"
proof (cases "frames w (PC r)")
  case (Pair f n)
  with assms(2) have "plain (baseName f @ '':'' @ itoa n)"
    by (simp add: plain_baseName plain_itoa ESC_def)
  then have "plain (fitSource (sourceWidth w) (baseName f @ '':'' @ itoa n))"
    by (rule plain_fitSource)
  with assms(1) Pair show ?thesis
    by (simp add: sourceOf_def Let_def ESC_def)
qed

lemma plain_fmtAttrs:
  "\<forall>a \<in> set as. plain (fst a) \<and> plain (fmtv (snd a)) \<Longrightarrow> plain (concat (map fmtAttr as))"
  by (induction as) (simp_all add: fmtAttr_def ESC_def)

lemma NL_not_ESC: "NL \<noteq> ESC"
  by (simp add: NL_def ESC_def)

lemma renderLine_plain:
  assumes "colorsDisabled w" and "plain (Message r)"
    and "\<forall>a \<in> set (Attrs r) \<union> set (elems (h_attrs h) w). plain (fst a) \<and> plain (fmtv (snd a))"
    and "plain (fst (frames w (PC r)))"
  shows "plain (renderLine h r w)"
proof -
  obtain ls lc where l: "formatLevelWithColor (Level r) w = (ls, lc)"
    by (cases "formatLevelWithColor (Level r) w")
  with formatLevel_disabled [OF assms(1), of "Level r"] have ls: "lc = []" "plain ls"
    by simp_all
  have "plain (concat (map fmtAttr (Attrs r)))" "plain (concat (map fmtAttr (elems (h_attrs h) w)))"
    using assms(3) by (simp_all add: plain_fmtAttrs)
  moreover have "plain (sourceOf r w)"
    using assms(1,4) by (rule plain_sourceOf)
  ultimately show ?thesis
    using assms(1,2) l ls
    by (simp add: renderLine_def Let_def plain_Format NL_not_ESC) (simp add: ESC_def)
qed

section \<open>Evaluating the formatter\<close>

lemma digit_chars:
  "char_of (48 :: nat) = CHR ''0''" "char_of (49 :: nat) = CHR ''1''"
  "char_of (50 :: nat) = CHR ''2''" "char_of (51 :: nat) = CHR ''3''"
  "char_of (52 :: nat) = CHR ''4''" "char_of (53 :: nat) = CHR ''5''"
  "char_of (54 :: nat) = CHR ''6''" "char_of (55 :: nat) = CHR ''7''"
  "char_of (56 :: nat) = CHR ''8''" "char_of (57 :: nat) = CHR ''9''"
  by code_simp+

lemma digits_numeral:
  "digits (numeral k) =
     (if (numeral k :: nat) < 10 then [char_of (48 + numeral k :: nat)]
      else digits (numeral k div 10) @ [char_of (48 + numeral k mod 10 :: nat)])"
  by (rule digits.simps)

lemma digits_0_1: "digits 0 = ''0''" "digits (Suc 0) = ''1''"
  by (simp_all add: digits.simps [of 0] digits.simps [of "Suc 0"] digit_chars)

lemmas digits_eval = digits_numeral digits_0_1 digit_chars

lemma itoa_8080: "itoa 8080 = ''8080''"
  by (simp add: itoa_def digits_eval)

lemma itoa_42: "itoa 42 = ''42''"
  by (simp add: itoa_def digits_eval)

lemma Format_exTime: "Format exTime = ''2025/12/27 09:20:18''"
  by (simp add: Format_def exTime_def zpad_def digits_eval)

lemma padRight_INFO: "padRight 5 ''INFO'' = ''INFO ''"
  by code_simp

lemma padRight_app_10: "padRight 10 ''app.go:42'' = ''app.go:42 ''"
  by code_simp

lemma fitSource_app_10: "fitSource 10 ''app.go:42'' = ''app.go:42 ''"
  by (simp add: fitSource_def padRightStar_def padRight_app_10)

lemma fitSource_app_wide: "fitSource 1000001 ''app.go:42'' = ''%!(BADWIDTH)app.go:42''"
  by (simp add: fitSource_def padRightStar_def)

lemma baseName_app: "baseName ''/home/u/app.go'' = ''app.go''"
  by code_simp

lemma formatLevel_INFO_disabled:
  "colorsDisabled w \<Longrightarrow> formatLevelWithColor LevelInfo w = (''INFO '', [])"
  by (simp add: formatLevelWithColor_def Let_def padRight_INFO LevelInfo_def LevelTrace_def
      LevelDebug_def)

lemma elems_nilSlice: "elems nilSlice w = []"
  by (simp add: elems_def nilSlice_def)

lemma sourceOf_bracket:
  assumes "colorsDisabled w" and "pc \<noteq> 0" and "frames w pc = (f, n)" and "f \<noteq> []"
  shows "sourceOf (Add (NewRecord t l m pc) args) w =
           ''['' @ fitSource (sourceWidth w) (baseName f @ '':'' @ itoa n) @ '']''"
  using assms by (simp add: sourceOf_def Add_def NewRecord_def Let_def)

lemma info_line:
  assumes "colorsDisabled w" and "pc \<noteq> 0" and "frames w pc = (f, 42)" and "f \<noteq> []"
    and "baseName f = ''app.go''" and "h_attrs h = nilSlice"
  shows "renderLine h (Add (NewRecord t LevelInfo ''server started'' pc)
            [AString ''port'', AInt 8080]) w =
         ''['' @ Format t @ ''] INFO  ['' @ fitSource (sourceWidth w) ''app.go:42''
           @ ''] server started port=8080'' @ [NL]"
proof -
  let ?r = "Add (NewRecord t LevelInfo ''server started'' pc) [AString ''port'', AInt 8080]"
  have s: "sourceOf ?r w = ''['' @ fitSource (sourceWidth w) ''app.go:42'' @ '']''"
    using sourceOf_bracket [OF assms(1-4)] assms(5) by (simp add: itoa_42)
  have f: "Time ?r = t" "Level ?r = LevelInfo" "Message ?r = ''server started''"
    "Attrs ?r = [(''port'', AInt 8080)]"
    by (simp_all add: Add_def NewRecord_def)
  show ?thesis
    unfolding renderLine_def
    by (simp add: Let_def s f formatLevel_INFO_disabled [OF assms(1)] assms(1,6) elems_nilSlice
        fmtAttr_def itoa_8080)
qed

lemma Info_writes:
  assumes "initialised w" and "floorOf w = Some LevelInfo"
  shows "\<exists>h. logger w = Some h \<and> h_attrs h = nilSlice \<and>
           Info msg args t pc w = Some (snd (Handle h (Add (NewRecord t LevelInfo msg pc) args) w)) \<and>
           calls (writers (snd (Handle h (Add (NewRecord t LevelInfo msg pc) args) w)) stdout) =
             calls (writers w stdout) @ [renderLine h (Add (NewRecord t LevelInfo msg pc) args) w]"
proof -
  from assms obtain a h where a: "level w = Some a" "logger w = Some h" "h_level h = a"
      "h_writer h = stdout" "h_attrs h = nilSlice" "levelVars w a = LevelInfo"
    by (auto simp: initialised_def floorOf_def split: option.splits)
  have e: "ensureInit w = w" using assms(1) by (rule ensureInit_initialised)
  from a have "Enabled h LevelInfo (ensureInit w)" by (simp add: e Enabled_def)
  with a e have "Info msg args t pc w =
      Some (snd (Handle h (Add (NewRecord t LevelInfo msg pc) args) w))"
    using logWithCaller_enabled [of w h LevelInfo] by (simp add: Info_def)
  with a Handle_write(2) [of h _ w] show ?thesis by simp
qed

text \<open>
  Claim C4, as the code has it.  With the floor at INFO, a source width of 10 and colors
  disabled, \<^verbatim>\<open>Info("server started", "port", 8080)\<close> from line 42 of \<^verbatim>\<open>app.go\<close> writes
  one line: the time in brackets, \<^verbatim>\<open>INFO\<close> padded to five characters and a joining space,
  the bracket holding \<^verbatim>\<open>app.go:42\<close> and one space (ten characters), the message and
  \<^verbatim>\<open>port=8080\<close>, and a newline.
\<close>

theorem info_line_at_width_10:
  assumes "initialised w" and "floorOf w = Some LevelInfo" and "sourceWidth w = 10"
    and "colorsDisabled w" and "pc \<noteq> 0" and "frames w pc = (f, 42)" and "f \<noteq> []"
    and "baseName f = ''app.go''"
  shows "\<exists>w'. Info ''server started'' [AString ''port'', AInt 8080] t pc w = Some w' \<and>
           calls (writers w' stdout) = calls (writers w stdout) @
             [''['' @ Format t @ ''] INFO  [app.go:42 ] server started port=8080'' @ [NL]]"
proof -
  from Info_writes [OF assms(1,2), of "''server started''" "[AString ''port'', AInt 8080]" t pc]
  obtain h where h: "h_attrs h = nilSlice"
    "Info ''server started'' [AString ''port'', AInt 8080] t pc w =
       Some (snd (Handle h (Add (NewRecord t LevelInfo ''server started'' pc)
         [AString ''port'', AInt 8080]) w))"
    "calls (writers (snd (Handle h (Add (NewRecord t LevelInfo ''server started'' pc)
         [AString ''port'', AInt 8080]) w)) stdout) =
       calls (writers w stdout) @ [renderLine h (Add (NewRecord t LevelInfo ''server started'' pc)
         [AString ''port'', AInt 8080]) w]"
    by blast
  from info_line [OF assms(4-8) h(1), of t] assms(3)
  have "renderLine h (Add (NewRecord t LevelInfo ''server started'' pc)
         [AString ''port'', AInt 8080]) w =
       ''['' @ Format t @ ''] INFO  [app.go:42 ] server started port=8080'' @ [NL]"
    by (simp add: fitSource_app_10)
  with h show ?thesis by simp
qed

lemma Init_config_start:
  "sourceWidth (Init exWorld) = 20" "\<not> colorsDisabled (Init exWorld)"
  "colorWarn (Init exWorld) = ansi ''33''" "colorSource (Init exWorld) = ansi ''32''"
  "frames (Init exWorld) = exFrames"
  by (simp_all add: Init_def Let_def NewColoredHandler_def initConfig_def getenv_color_def
      exWorld_def start_def)

lemma setters_keep:
  "initialised w \<Longrightarrow> initialised (DisableColors w)"
  "initialised w \<Longrightarrow> initialised (SetSourceWidth n w)"
  "floorOf (DisableColors w) = floorOf w" "floorOf (SetSourceWidth n w) = floorOf w"
  "writers (DisableColors w) = writers w" "writers (SetSourceWidth n w) = writers w"
  "frames (DisableColors w) = frames w" "frames (SetSourceWidth n w) = frames w"
  "colorsDisabled (DisableColors w)"
  "sourceWidth (DisableColors w) = sourceWidth w"
  "0 < n \<Longrightarrow> sourceWidth (SetSourceWidth n w) = nat n"
  by (auto simp: initialised_def DisableColors_def SetSourceWidth_def floorOf_def
      split: option.splits)

lemma exPlain_facts:
  "initialised exPlain" "floorOf exPlain = Some LevelInfo" "sourceWidth exPlain = 10"
  "colorsDisabled exPlain" "frames exPlain 7 = (''/home/u/app.go'', 42)"
  "calls (writers exPlain stdout) = []"
  by (simp_all add: exPlain_def setters_keep initialised_Init exWorld_start floorOf_Init
      parseLevel_empty Init_config_start exFrames_def writers_Init okSink_def)

theorem info_line_at_width_10_witness:
  "initialised exPlain \<and> floorOf exPlain = Some LevelInfo \<and> sourceWidth exPlain = 10 \<and>
   colorsDisabled exPlain \<and> frames exPlain 7 = (''/home/u/app.go'', 42) \<and>
   (\<exists>w'. Info ''server started'' [AString ''port'', AInt 8080] exTime 7 exPlain = Some w' \<and>
      calls (writers w' stdout) =
        [''[2025/12/27 09:20:18] INFO  [app.go:42 ] server started port=8080'' @ [NL]])"
  using info_line_at_width_10 [OF exPlain_facts(1-4) _ exPlain_facts(5), of exTime]
  by (simp add: exPlain_facts baseName_app Format_exTime)

text \<open>
  Claim C4 as stated fails: the line it gives holds \<^verbatim>\<open>app.go:42\<close> and two spaces in the
  bracket, eleven characters for a width of 10.  The line written is another one.
\<close>

theorem info_line_two_spaces_counterexample:
  "floorOf exPlain = Some LevelInfo \<and> sourceWidth exPlain = 10 \<and> colorsDisabled exPlain \<and>
   frames exPlain 7 = (''/home/u/app.go'', 42) \<and>
   map_option (\<lambda>w. calls (writers w stdout))
     (Info ''server started'' [AString ''port'', AInt 8080] exTime 7 exPlain) \<noteq>
     Some [''['' @ Format exTime @ ''] INFO  [app.go:42  ] server started port=8080'' @ [NL]]"
proof -
  from Info_writes [OF exPlain_facts(1,2), of "''server started''"
      "[AString ''port'', AInt 8080]" exTime 7]
  obtain h where h: "h_attrs h = nilSlice"
    "Info ''server started'' [AString ''port'', AInt 8080] exTime 7 exPlain =
       Some (snd (Handle h (Add (NewRecord exTime LevelInfo ''server started'' 7)
         [AString ''port'', AInt 8080]) exPlain))"
    "calls (writers (snd (Handle h (Add (NewRecord exTime LevelInfo ''server started'' 7)
         [AString ''port'', AInt 8080]) exPlain)) stdout) =
       calls (writers exPlain stdout) @ [renderLine h (Add (NewRecord exTime LevelInfo ''server started'' 7)
         [AString ''port'', AInt 8080]) exPlain]"
    by blast
  have "renderLine h (Add (NewRecord exTime LevelInfo ''server started'' 7)
         [AString ''port'', AInt 8080]) exPlain =
       ''['' @ Format exTime @ ''] INFO  [app.go:42 ] server started port=8080'' @ [NL]"
    using info_line [OF exPlain_facts(4) _ exPlain_facts(5) _ _ h(1), of exTime]
    by (simp add: baseName_app exPlain_facts fitSource_app_10)
  with h show ?thesis by (simp add: exPlain_facts)
qed

section \<open>The width of the call-site bracket\<close>

lemma RuneCount_ascii: "ascii s \<Longrightarrow> RuneCountInString s = length s"
proof (induction s)
  case Nil
  then show ?case by (simp add: RuneCountInString.simps)
next
  case (Cons c s)
  then have "byte c < 0x80" "ascii s" by (simp_all add: ascii_def)
  then have "runeWidth (c # s) = 1" by (simp add: runeWidth_def Let_def)
  with Cons \<open>ascii s\<close> show ?case
    by (subst RuneCountInString.simps) simp
qed

lemma fitSource_in_range:
  assumes "w \<le> 1000000"
  shows "fitSource w s =
           (if w < length s then take w s
            else s @ replicate (w - RuneCountInString s) CHR '' '')"
  using assms by (simp add: fitSource_def padRightStar_def padRight_def)

lemma fitSource_ascii_width:
  assumes "w \<le> 1000000" and "ascii s"
  shows "length (fitSource w s) = w"
  using assms by (simp add: fitSource_in_range RuneCount_ascii)


section \<open>Colors disabled\<close>

text \<open>
  Claim C7, as the code has it.  With colors disabled, the line \<^verbatim>\<open>Handle\<close> writes has no
  escape byte, whatever the color strings are, for a record whose message, attribute
  keys and values (those of the call and those bound to the handler) and call-site file
  name have none.
\<close>

theorem no_escape_when_colors_disabled:
  assumes "colorsDisabled w" and "plain (Message r)"
    and "\<forall>a \<in> set (Attrs r) \<union> set (elems (h_attrs h) w). plain (fst a) \<and> plain (fmtv (snd a))"
    and "plain (fst (frames w (PC r)))"
  shows "plain (renderLine h r w) \<and>
         calls (writers (snd (Handle h r w)) (h_writer h)) =
           calls (writers w (h_writer h)) @ [renderLine h r w]"
  using assms by (simp add: renderLine_plain Handle_write)

lemma exRecord_fields:
  "Message exRecord = ''slow query''" "Attrs exRecord = [(''duration'', AString ''500ms'')]"
  "PC exRecord = 7" "Level exRecord = LevelWarn" "Time exRecord = exTime"
  by (simp_all add: exRecord_def Add_def NewRecord_def)

lemma exColors_facts:
  "colorsDisabled (DisableColors (Init exWorld))"
  "colorWarn (DisableColors (Init exWorld)) = ESC # ''[33m''"
  "colorSource (DisableColors (Init exWorld)) = ESC # ''[32m''"
  "frames (DisableColors (Init exWorld)) 7 = (''/home/u/app.go'', 42)"
  by (simp_all add: setters_keep Init_config_start DisableColors_def ansi_def exFrames_def)

theorem no_escape_when_colors_disabled_witness:
  "colorsDisabled (DisableColors (Init exWorld)) \<and>
   colorWarn (DisableColors (Init exWorld)) = ESC # ''[33m'' \<and>
   colorSource (DisableColors (Init exWorld)) = ESC # ''[32m'' \<and>
   plain (Message exRecord) \<and> plain (fst (frames (DisableColors (Init exWorld)) (PC exRecord))) \<and>
   plain (renderLine exLogger exRecord (DisableColors (Init exWorld)))"
proof -
  have m: "plain (Message exRecord)"
    by (simp add: exRecord_fields ESC_def)
  have a: "\<forall>a \<in> set (Attrs exRecord) \<union> set (elems (h_attrs exLogger) (DisableColors (Init exWorld))).
      plain (fst a) \<and> plain (fmtv (snd a))"
    by (simp add: exRecord_fields exLogger_def elems_nilSlice ESC_def)
  have f: "plain (fst (frames (DisableColors (Init exWorld)) (PC exRecord)))"
    by (simp add: exRecord_fields exColors_facts ESC_def)
  from no_escape_when_colors_disabled [OF exColors_facts(1) m a f]
  show ?thesis using m f by (simp add: exColors_facts)
qed

lemma escape_in_source:
  assumes "ESC \<in> set (sourceOf r w)"
  shows "\<not> plain (renderLine h r w)"
proof -
  obtain ls lc where "formatLevelWithColor (Level r) w = (ls, lc)"
    by (cases "formatLevelWithColor (Level r) w")
  with assms show ?thesis
    by (simp add: renderLine_def Let_def plain_def)
qed

text \<open>
  Claim C7 as stated fails for a call site whose file name holds an escape byte (a file
  so named, or a \<^verbatim>\<open>//line\<close> directive): the message and the attributes have none, colors
  are disabled, and the line has one.
\<close>

theorem escape_in_file_name_counterexample:
  "colorsDisabled exEscape \<and> plain (Message (NewRecord exTime LevelInfo ''m'' 7)) \<and>
   Attrs (NewRecord exTime LevelInfo ''m'' 7) = [] \<and> elems (h_attrs exLogger) exEscape = [] \<and>
   \<not> plain (renderLine exLogger (NewRecord exTime LevelInfo ''m'' 7) exEscape)"
proof -
  have c: "colorsDisabled exEscape" "frames exEscape 7 = (escFile, 1)" "escFile \<noteq> []"
    by (simp_all add: exEscape_def DisableColors_def escFile_def)
  have b: "baseName escFile = CHR ''a'' # ESC # ''.go''"
    by (simp add: baseName_def escFile_def ESC_def)
  have "sourceOf (NewRecord exTime LevelInfo ''m'' 7) exEscape =
      ''['' @ fitSource (sourceWidth exEscape) (CHR ''a'' # ESC # ''.go'' @ '':'' @ itoa 1) @ '']''"
    using c by (simp add: sourceOf_def NewRecord_def Let_def b)
  moreover have "sourceWidth exEscape = 20"
    by (simp add: exEscape_def DisableColors_def Init_config_start)
  moreover have "ESC \<in> set (fitSource 20 (CHR ''a'' # ESC # ''.go'' @ '':'' @ itoa 1))"
    by (simp add: fitSource_def padRightStar_def padRight_def)
  ultimately have "ESC \<in> set (sourceOf (NewRecord exTime LevelInfo ''m'' 7) exEscape)"
    by simp
  then have "\<not> plain (renderLine exLogger (NewRecord exTime LevelInfo ''m'' 7) exEscape)"
    by (rule escape_in_source)
  with c show ?thesis
    by (simp add: NewRecord_def exLogger_def elems_nilSlice ESC_def)
qed

section \<open>The source width beyond what fmt accepts\<close>

lemma exWide_facts:
  "initialised exWide" "floorOf exWide = Some LevelInfo" "sourceWidth exWide = 1000001"
  "colorsDisabled exWide" "frames exWide 7 = (''/home/u/app.go'', 42)"
  "calls (writers exWide stdout) = []"
  by (simp_all add: exWide_def setters_keep initialised_Init exWorld_start floorOf_Init
      parseLevel_empty Init_config_start exFrames_def writers_Init okSink_def)

lemma renderLine_exWide:
  assumes "h_attrs h = nilSlice"
  shows "renderLine h (Add (NewRecord exTime LevelInfo ''x'' 7) []) exWide =
     ''[2025/12/27 09:20:18] INFO  [%!(BADWIDTH)app.go:42] x'' @ [NL]"
proof -
  let ?r = "Add (NewRecord exTime LevelInfo ''x'' 7) []"
  have "sourceOf ?r exWide =
      ''['' @ fitSource (sourceWidth exWide) (baseName ''/home/u/app.go'' @ '':'' @ itoa 42) @ '']''"
    by (rule sourceOf_bracket) (simp_all add: exWide_facts)
  then have s: "sourceOf ?r exWide = ''[%!(BADWIDTH)app.go:42]''"
    by (simp add: exWide_facts baseName_app itoa_42 fitSource_app_wide)
  have f: "Time ?r = exTime" "Level ?r = LevelInfo" "Message ?r = ''x''" "Attrs ?r = []"
    by (simp_all add: Add_def NewRecord_def)
  show ?thesis
    unfolding renderLine_def
    by (simp add: Let_def s f formatLevel_INFO_disabled exWide_facts assms elems_nilSlice
        Format_exTime)
qed

text \<open>
  Claim C8 at a width above \<open>10\<^sup>6\<close>, which \<^verbatim>\<open>SetSourceWidth\<close> accepts.  The bracket
  does not hold the call site padded to that width: \<^verbatim>\<open>fmt\<close> refuses the width, and the
  bracket holds the 12 bytes of \<^verbatim>\<open>%!(BADWIDTH)\<close> and the call site unpadded.
\<close>

theorem source_width_above_fmt_limit:
  "sourceWidth exWide = 1000001 \<and>
   fitSource 1000001 ''app.go:42'' = ''%!(BADWIDTH)app.go:42'' \<and>
   map_option (\<lambda>w. calls (writers w stdout)) (Info ''x'' [] exTime 7 exWide) =
     Some [''[2025/12/27 09:20:18] INFO  [%!(BADWIDTH)app.go:42] x'' @ [NL]]"
proof -
  from Info_writes [OF exWide_facts(1,2), of "''x''" "[]" exTime 7]
  obtain h where h: "h_attrs h = nilSlice"
    "Info ''x'' [] exTime 7 exWide =
       Some (snd (Handle h (Add (NewRecord exTime LevelInfo ''x'' 7) []) exWide))"
    "calls (writers (snd (Handle h (Add (NewRecord exTime LevelInfo ''x'' 7) []) exWide)) stdout) =
       calls (writers exWide stdout) @ [renderLine h (Add (NewRecord exTime LevelInfo ''x'' 7) []) exWide]"
    by blast
  with renderLine_exWide [OF h(1)] show ?thesis
    by (simp add: exWide_facts fitSource_app_wide)
qed

section \<open>Derived handlers\<close>

lemma slice_ok_nil: "slice_ok nilSlice w"
  by (simp add: slice_ok_def nilSlice_def)

lemma WithAttrs_own_list:
  assumes "slice_ok (h_attrs h) w" and "WithAttrs h as w = (h', w')"
  shows "elems (h_attrs h') w' = elems (h_attrs h) w @ as"
    and "elems (h_attrs h) w' = elems (h_attrs h) w"
    and "slice_ok (h_attrs h') w'"
proof -
  let ?s = "h_attrs h"
  let ?n = "s_len ?s + length as"
  from assms(1) have ok: "s_len ?s \<le> s_cap ?s" "s_cap ?s \<le> length (arrays w (s_arr ?s))"
    "0 < s_cap ?s \<Longrightarrow> s_arr ?s < nextArray w"
    by (simp_all add: slice_ok_def)
  show "elems (h_attrs h') w' = elems (h_attrs h) w @ as"
    using assms(2) ok
    by (auto simp: WithAttrs_def append_attrs_def Let_def elems_def split: if_splits)
  show "elems (h_attrs h) w' = elems (h_attrs h) w"
  proof (cases "?n \<le> s_cap ?s")
    case True
    with assms(2) ok show ?thesis
      by (auto simp: WithAttrs_def append_attrs_def Let_def elems_def)
  next
    case False
    show ?thesis
    proof (cases "s_cap ?s = 0")
      case True
      with ok have "s_len ?s = 0" by simp
      then show ?thesis by (simp add: elems_def)
    next
      case nz: False
      with ok have "s_arr ?s \<noteq> nextArray w" by auto
      with assms(2) False show ?thesis
        by (auto simp: WithAttrs_def append_attrs_def Let_def elems_def)
    qed
  qed
  show "slice_ok (h_attrs h') w'"
    using assms(2) ok
    by (auto simp: WithAttrs_def append_attrs_def Let_def slice_ok_def elems_def
        split: if_splits)
qed

lemma exParent_eval:
  "h_attrs (fst exParent) = \<lparr>s_arr = 2, s_len = 3, s_cap = 4\<rparr>"
  "elems (h_attrs (fst exParent)) (snd exParent) = [(''a'', AInt 1), (''b'', AInt 2), (''c'', AInt 3)]"
  by (simp_all add: exParent_def NewColoredHandler_def WithAttrs_def append_attrs_def Let_def
      nilSlice_def elems_def goGrow_def zeroAttr_def initConfig_keeps
      exWorld_def start_def initConfig_def getenv_color_def)

lemma exParent_state:
  "fst exParent = \<lparr>h_level = 0, h_writer = stdout, h_attrs = \<lparr>s_arr = 2, s_len = 3, s_cap = 4\<rparr>, h_groups = []\<rparr>"
  "arrays (snd exParent) 2 = [(''a'', AInt 1), (''b'', AInt 2), (''c'', AInt 3), zeroAttr]"
  "colorsDisabled (snd exParent) = False" "colorInfo (snd exParent) = []"
  by (simp_all add: exParent_def NewColoredHandler_def WithAttrs_def append_attrs_def Let_def
      nilSlice_def elems_def goGrow_def exWorld_def start_def initConfig_def getenv_color_def)

lemma exChildD_state:
  "fst exChildD = \<lparr>h_level = 0, h_writer = stdout, h_attrs = \<lparr>s_arr = 2, s_len = 4, s_cap = 4\<rparr>, h_groups = []\<rparr>"
  "arrays (snd exChildD) 2 = [(''a'', AInt 1), (''b'', AInt 2), (''c'', AInt 3), (''d'', AInt 4)]"
  "colorsDisabled (snd exChildD) = False" "colorInfo (snd exChildD) = []"
  by (simp_all add: exChildD_def WithAttrs_def append_attrs_def Let_def exParent_state)

lemma exChildE_state:
  "fst exChildE = \<lparr>h_level = 0, h_writer = stdout, h_attrs = \<lparr>s_arr = 2, s_len = 4, s_cap = 4\<rparr>, h_groups = []\<rparr>"
  "arrays (snd exChildE) 2 = [(''a'', AInt 1), (''b'', AInt 2), (''c'', AInt 3), (''e'', AInt 5)]"
  "colorsDisabled (snd exChildE) = False" "colorInfo (snd exChildE) = []"
  by (simp_all add: exChildE_def WithAttrs_def append_attrs_def Let_def exParent_state
      exChildD_state)

lemma renderLine_bound:
  assumes "\<not> colorsDisabled w" and "colorInfo w = []"
  shows "renderLine h (NewRecord exTime LevelInfo ''m'' 0) w =
     ''[2025/12/27 09:20:18] INFO   m'' @ concat (map fmtAttr (elems (h_attrs h) w)) @ [NL]"
  using assms
  by (simp add: renderLine_def Let_def NewRecord_def sourceOf_def formatLevelWithColor_def
      LevelInfo_def LevelTrace_def LevelDebug_def padRight_INFO Format_exTime)

lemma itoa_digits: "itoa 1 = ''1''" "itoa 2 = ''2''" "itoa 3 = ''3''" "itoa 4 = ''4''" "itoa 5 = ''5''"
  by (simp_all add: itoa_def digits_eval)

text \<open>
  Claim C2 at a parent whose attribute slice has a spare element of capacity: the
  handler derived by three appends of one attribute each, which holds three attributes in
  an array of four.  Both derivations write their attribute into the fourth element of
  that array, so deriving the second handler replaces what the first one renders.
\<close>

theorem derived_handlers_share_array:
  "elems (h_attrs (fst exParent)) (snd exParent) = [(''a'', AInt 1), (''b'', AInt 2), (''c'', AInt 3)] \<and>
   s_cap (h_attrs (fst exParent)) = 4 \<and>
   renderLine (fst exChildD) (NewRecord exTime LevelInfo ''m'' 0) (snd exChildD) =
     ''[2025/12/27 09:20:18] INFO   m a=1 b=2 c=3 d=4'' @ [NL] \<and>
   renderLine (fst exChildE) (NewRecord exTime LevelInfo ''m'' 0) (snd exChildE) =
     ''[2025/12/27 09:20:18] INFO   m a=1 b=2 c=3 e=5'' @ [NL] \<and>
   renderLine (fst exChildD) (NewRecord exTime LevelInfo ''m'' 0) (snd exChildE) =
     ''[2025/12/27 09:20:18] INFO   m a=1 b=2 c=3 e=5'' @ [NL]"
  by (simp add: renderLine_bound exParent_state exChildD_state exChildE_state elems_def
      fmtAttr_def itoa_digits)

end
